theory Spec2Isabelle
  imports Main "HOL-Library.Word"
begin

unbundle bit_operations_syntax

section \<open>Constants of the headers\<close>

type_synonym byte = "8 word"

abbreviation RECV_BUFFER_SIZE :: nat where "RECV_BUFFER_SIZE \<equiv> 4096"
abbreviation SEND_BUFFER_SIZE :: nat where "SEND_BUFFER_SIZE \<equiv> 8192"
abbreviation ESPHOME_MAX_CLIENTS :: nat where "ESPHOME_MAX_CLIENTS \<equiv> 2"
abbreviation ESPHOME_MAX_ADV_DATA :: nat where "ESPHOME_MAX_ADV_DATA \<equiv> 62"
abbreviation ESPHOME_MAX_ADV_BATCH :: nat where "ESPHOME_MAX_ADV_BATCH \<equiv> 16"
abbreviation ESPHOME_MAX_MESSAGE_SIZE :: nat where "ESPHOME_MAX_MESSAGE_SIZE \<equiv> 4096"

abbreviation ESPHOME_MSG_HELLO_REQUEST :: "16 word" where "ESPHOME_MSG_HELLO_REQUEST \<equiv> 1"
abbreviation ESPHOME_MSG_HELLO_RESPONSE :: "16 word" where "ESPHOME_MSG_HELLO_RESPONSE \<equiv> 2"
abbreviation ESPHOME_MSG_CONNECT_REQUEST :: "16 word" where "ESPHOME_MSG_CONNECT_REQUEST \<equiv> 3"
abbreviation ESPHOME_MSG_CONNECT_RESPONSE :: "16 word" where "ESPHOME_MSG_CONNECT_RESPONSE \<equiv> 4"
abbreviation ESPHOME_MSG_DISCONNECT_REQUEST :: "16 word" where "ESPHOME_MSG_DISCONNECT_REQUEST \<equiv> 5"
abbreviation ESPHOME_MSG_PING_REQUEST :: "16 word" where "ESPHOME_MSG_PING_REQUEST \<equiv> 7"
abbreviation ESPHOME_MSG_PING_RESPONSE :: "16 word" where "ESPHOME_MSG_PING_RESPONSE \<equiv> 8"
abbreviation ESPHOME_MSG_DEVICE_INFO_REQUEST :: "16 word" where "ESPHOME_MSG_DEVICE_INFO_REQUEST \<equiv> 9"
abbreviation ESPHOME_MSG_DEVICE_INFO_RESPONSE :: "16 word" where "ESPHOME_MSG_DEVICE_INFO_RESPONSE \<equiv> 10"
abbreviation ESPHOME_MSG_LIST_ENTITIES_REQUEST :: "16 word" where "ESPHOME_MSG_LIST_ENTITIES_REQUEST \<equiv> 11"
abbreviation ESPHOME_MSG_LIST_ENTITIES_DONE_RESPONSE :: "16 word" where
  "ESPHOME_MSG_LIST_ENTITIES_DONE_RESPONSE \<equiv> 19"
abbreviation ESPHOME_MSG_SUBSCRIBE_STATES_REQUEST :: "16 word" where
  "ESPHOME_MSG_SUBSCRIBE_STATES_REQUEST \<equiv> 20"
abbreviation ESPHOME_MSG_SUBSCRIBE_HOMEASSISTANT_SERVICES_REQUEST :: "16 word" where
  "ESPHOME_MSG_SUBSCRIBE_HOMEASSISTANT_SERVICES_REQUEST \<equiv> 34"
abbreviation ESPHOME_MSG_SUBSCRIBE_HOMEASSISTANT_STATES_REQUEST :: "16 word" where
  "ESPHOME_MSG_SUBSCRIBE_HOMEASSISTANT_STATES_REQUEST \<equiv> 38"
abbreviation ESPHOME_MSG_SUBSCRIBE_BLUETOOTH_LE_ADVERTISEMENTS_REQUEST :: "16 word" where
  "ESPHOME_MSG_SUBSCRIBE_BLUETOOTH_LE_ADVERTISEMENTS_REQUEST \<equiv> 66"
abbreviation ESPHOME_MSG_BLUETOOTH_LE_RAW_ADVERTISEMENTS_RESPONSE :: "16 word" where
  "ESPHOME_MSG_BLUETOOTH_LE_RAW_ADVERTISEMENTS_RESPONSE \<equiv> 93"

abbreviation BLE_FEATURE_PASSIVE_SCAN :: "32 word" where "BLE_FEATURE_PASSIVE_SCAN \<equiv> push_bit 0 1"
abbreviation BLE_FEATURE_RAW_ADVERTISEMENTS :: "32 word" where
  "BLE_FEATURE_RAW_ADVERTISEMENTS \<equiv> push_bit 5 1"


section \<open>Data model\<close>

text \<open>
  \<^verbatim>\<open>esphome_device_config_t\<close> (esphome\_api.h). A C string is the \<^typ>\<open>string\<close> of its
  characters before the terminating NUL.
\<close>

record esphome_device_config =
  device_name :: string
  mac_address :: string
  esphome_version :: string
  model :: string
  manufacturer :: string
  friendly_name :: string
  suggested_area :: string

text \<open>
  \<^verbatim>\<open>esphome_ble_advert_t\<close>, what the scanner hands over: \<^verbatim>\<open>address[6]\<close>,
  \<^verbatim>\<open>address_type\<close>, the \<^verbatim>\<open>int8_t rssi\<close> (read with \<^const>\<open>sint\<close>), \<^verbatim>\<open>data[62]\<close> and the
  \<^verbatim>\<open>size_t data_len\<close>.
\<close>

record esphome_ble_advert =
  adv_address :: "byte list"
  adv_address_type :: byte
  adv_rssi :: byte
  adv_data :: "byte list"
  adv_data_len :: nat

text \<open>\<^verbatim>\<open>esphome_ble_advertisement_t\<close>, one entry of the batch (esphome\_proto.h).\<close>

record esphome_ble_advertisement =
  pb_address :: "64 word"
  pb_rssi :: "32 word"
  pb_address_type :: "32 word"
  pb_data :: "byte list"
  pb_data_len :: nat

text \<open>
  \<^verbatim>\<open>esphome_ble_advertisements_response_t\<close>: the array of 16 entries and the number
  \<open>count\<close> of them in use. Clearing the batch only sets \<open>count\<close> to 0, as in the C code.
\<close>

record esphome_ble_advertisements_response =
  advertisements :: "esphome_ble_advertisement list"
  count :: nat

record esphome_hello_response =
  api_version_major :: "32 word"
  api_version_minor :: "32 word"
  server_info :: string
  hello_name :: string

record esphome_connect_response =
  invalid_password :: bool

record esphome_device_info_response =
  uses_password :: bool
  info_name :: string
  info_mac_address :: string
  info_esphome_version :: string
  info_compilation_time :: string
  info_model :: string
  info_manufacturer :: string
  info_friendly_name :: string
  has_deep_sleep :: bool
  info_suggested_area :: string
  bluetooth_proxy_feature_flags :: "32 word"
  bluetooth_mac_address :: string

text \<open>
  \<^verbatim>\<open>client_connection_t\<close>. \<open>recv_buffer\<close> holds the bytes received and not yet consumed,
  that is the first \<^verbatim>\<open>recv_pos\<close> bytes of the C array; \<^verbatim>\<open>recv_pos\<close> is its length. The
  mutex, the thread handle and the back pointer to the server carry no data of their own.
\<close>

record client_connection =
  fd :: int
  authenticated :: bool
  subscribed_ble :: bool
  recv_buffer :: "byte list"
  thread_running :: bool

abbreviation recv_pos :: "client_connection \<Rightarrow> nat" where
  "recv_pos client \<equiv> length (recv_buffer client)"

record timespec =
  tv_sec :: int
  tv_nsec :: int

text \<open>\<^verbatim>\<open>struct esphome_api_server\<close>; \<open>clients\<close> is the array of \<^verbatim>\<open>ESPHOME_MAX_CLIENTS\<close> slots.\<close>

record esphome_api_server =
  config :: esphome_device_config
  listen_fd :: int
  running :: bool
  clients :: "client_connection list"
  ble_batch :: esphome_ble_advertisements_response
  last_flush :: timespec

text \<open>
  What the code does to the outside world, in order: a call of \<^verbatim>\<open>send\<close> with the socket, the
  frame and the value the call returned; \<^verbatim>\<open>close\<close> and \<^verbatim>\<open>shutdown\<close> of a descriptor; the
  start of a client thread for a slot; \<^verbatim>\<open>free\<close> of the server. \<open>Dispatched\<close> records that
  \<^verbatim>\<open>dispatch_message\<close> was entered with a message type and payload. Log lines are not modelled.
\<close>

datatype io_event =
    SendCall int "byte list" int
  | CloseCall int
  | ShutdownCall int
  | ThreadCreate nat
  | FreeCall
  | Dispatched "16 word" "byte list"

text \<open>What one call of \<^verbatim>\<open>recv\<close> hands to the client thread.\<close>

datatype recv_result = RecvData "byte list" | RecvClosed | RecvError

text \<open>
  The payload slice \<^verbatim>\<open>recv_buffer + header_len\<close> of \<^verbatim>\<open>msg_len\<close> bytes would run past the
  received bytes. This happens only when the 32-bit sum \<^verbatim>\<open>header_len + msg_len\<close> wrapped
  around; the C code carries on with that length.
\<close>

datatype fault = PayloadOutOfBounds

text \<open>
  The collaborators that esphome\_api.c only calls, taken as parameters: the message encoders
  and the decoder declared in esphome\_proto.h (each encoder gets the size of its output
  buffer and returns the bytes written, none on failure), the result of the system
  call \<^verbatim>\<open>send\<close> for a descriptor and a frame, and the compiler's \<^verbatim>\<open>__DATE__ " " __TIME__\<close>.
\<close>

record externals =
  esphome_encode_hello_response :: "nat \<Rightarrow> esphome_hello_response \<Rightarrow> byte list"
  esphome_encode_connect_response :: "nat \<Rightarrow> esphome_connect_response \<Rightarrow> byte list"
  esphome_encode_device_info_response :: "nat \<Rightarrow> esphome_device_info_response \<Rightarrow> byte list"
  esphome_encode_ble_advertisements :: "nat \<Rightarrow> esphome_ble_advertisements_response \<Rightarrow> byte list"
  esphome_decode_subscribe_ble_advertisements :: "byte list \<Rightarrow> 32 word option"
  sys_send :: "int \<Rightarrow> byte list \<Rightarrow> int"
  compilation_time :: string


section \<open>Utility functions and client management\<close>

text \<open>
  \<^verbatim>\<open>mac_to_uint64\<close>: the loop \<^verbatim>\<open>for (i = 0; i < 6; i++) result |= (uint64_t)mac[i] << ((5 - i) * 8)\<close>.
\<close>

definition mac_to_uint64 :: "byte list \<Rightarrow> 64 word" where
  "mac_to_uint64 mac =
     fold (\<lambda>i result. result OR push_bit ((5 - i) * 8) (ucast (mac ! i) :: 64 word)) [0..<6] 0"

definition client_init :: client_connection where
  "client_init =
     \<lparr>fd = - 1, authenticated = False, subscribed_ble = False, recv_buffer = [],
      thread_running = False\<rparr>"

definition client_close :: "client_connection \<Rightarrow> client_connection \<times> io_event list" where
  "client_close client =
     (client\<lparr>fd := (if 0 \<le> fd client then - 1 else fd client),
             authenticated := False, subscribed_ble := False, recv_buffer := []\<rparr>,
      if 0 \<le> fd client then [CloseCall (fd client)] else [])"


section \<open>Frame transport\<close>

text \<open>
  Modelled from the spec: \<^verbatim>\<open>pb_encode_varint\<close>, declared in esphome\_proto.h only. The spec
  (4.1): little-endian groups of 7 bits, the continuation bit set on all but the last byte.
  The argument is the value of the \<^verbatim>\<open>uint64_t\<close>.
\<close>

fun pb_encode_varint :: "nat \<Rightarrow> byte list" where
  "pb_encode_varint v =
     (if v < 128 then [of_nat v] else of_nat (v mod 128 + 128) # pb_encode_varint (v div 128))"

declare pb_encode_varint.simps [simp del]

text \<open>
  Modelled from the spec: \<^verbatim>\<open>pb_decode_varint\<close>, declared in esphome\_proto.h only. The spec
  (4.1): it rejects an input that needs more than 10 groups and fails when the buffer ends
  before a byte without continuation bit. \<open>i\<close> counts the groups read, \<open>acc\<close> is the
  value so far (a \<^verbatim>\<open>uint64_t\<close>, so modulo \<open>2 ^ 64\<close>); the result is the value and the number of
  bytes read.
\<close>

fun pb_decode_varint_from :: "nat \<Rightarrow> nat \<Rightarrow> byte list \<Rightarrow> (nat \<times> nat) option" where
  "pb_decode_varint_from i acc [] = None"
| "pb_decode_varint_from i acc (b # bs) =
     (if 10 \<le> i then None
      else
        let acc' = (acc + (unat b mod 128) * 2 ^ (7 * i)) mod 2 ^ 64
        in if unat b < 128 then Some (acc', Suc i) else pb_decode_varint_from (Suc i) acc' bs)"

definition pb_decode_varint :: "byte list \<Rightarrow> (nat \<times> nat) option" where
  "pb_decode_varint bs = pb_decode_varint_from 0 0 bs"

text \<open>
  Modelled from the spec: \<^verbatim>\<open>esphome_frame_message\<close>, declared in esphome\_proto.h only. The
  spec (4.2, 6): a zero preamble byte, the varint of the length of the type varint plus the
  length of the payload, the varint of the message type, the payload; the result is empty
  (length 0) when the frame does not fit into \<open>out_size\<close> bytes.
\<close>

definition esphome_frame_message :: "nat \<Rightarrow> 16 word \<Rightarrow> byte list \<Rightarrow> byte list" where
  "esphome_frame_message out_size msg_type payload =
     (let type_varint = pb_encode_varint (unat msg_type);
          frame = 0 # pb_encode_varint (length type_varint + length payload) @ type_varint @ payload
      in if out_size < length frame then [] else frame)"

text \<open>
  Modelled from the spec: \<^verbatim>\<open>esphome_decode_frame_header\<close>, declared in esphome\_proto.h only
  ("returns payload offset, or 0 on error"). The spec (4.2): it parses the preamble, the length
  varint and the type varint of the accumulated bytes and answers "insufficient data"
  (\<open>None\<close>, the C result 0) or the header length, the payload length and the message type.
  Its caller \<^verbatim>\<open>handle_client_data\<close> fixes what the two lengths are: \<^verbatim>\<open>header_len\<close> is the
  position where the payload starts, after preamble, length varint and type varint, and
  \<^verbatim>\<open>msg_len\<close> is the payload length only, not including the type varint. So the length of the
  type varint is taken off the length the frame declares.
\<close>

definition esphome_decode_frame_header :: "byte list \<Rightarrow> (nat \<times> 32 word \<times> 16 word) option" where
  "esphome_decode_frame_header buf =
     (case buf of
        [] \<Rightarrow> None
      | preamble # rest \<Rightarrow>
          if preamble \<noteq> 0 then None
          else
            (case pb_decode_varint rest of
               None \<Rightarrow> None
             | Some (declared, n1) \<Rightarrow>
                 (case pb_decode_varint (drop n1 rest) of
                    None \<Rightarrow> None
                  | Some (ty, n2) \<Rightarrow>
                      if declared < n2 then None
                      else Some (1 + n1 + n2, of_nat (declared - n2), of_nat ty))))"


section \<open>Message sending and handlers\<close>

text \<open>
  \<^verbatim>\<open>send_message\<close>: frame into the 8192 byte buffer, give up with -1 when framing fails, call
  \<^verbatim>\<open>send\<close> once, and return -1 when it failed or sent fewer bytes than the frame has, 0
  otherwise. The client is not changed.
\<close>

definition send_message ::
  "externals \<Rightarrow> client_connection \<Rightarrow> 16 word \<Rightarrow> byte list \<Rightarrow> int \<times> io_event list" where
  "send_message env client msg_type payload =
     (let frame = esphome_frame_message SEND_BUFFER_SIZE msg_type payload
      in if length frame = 0 then (- 1, [])
         else
           let sent = sys_send env (fd client) frame
           in if sent < 0 then (- 1, [SendCall (fd client) frame sent])
              else if nat sent \<noteq> length frame then (- 1, [SendCall (fd client) frame sent])
              else (0, [SendCall (fd client) frame sent]))"

text \<open>
  The handlers return the client and what they did. \<^verbatim>\<open>snprintf\<close> into 128 bytes and
  \<^verbatim>\<open>strncpy\<close> of at most \<^verbatim>\<open>sizeof - 1\<close> characters into a zeroed field keep a prefix.
\<close>

definition handle_hello_request ::
  "externals \<Rightarrow> esphome_device_config \<Rightarrow> client_connection \<Rightarrow> byte list
   \<Rightarrow> client_connection \<times> io_event list" where
  "handle_hello_request env cfg client payload =
     (let response =
            \<lparr>api_version_major = 1, api_version_minor = 12,
             server_info = take 127 (device_name cfg @ '' (Thingino BLE Proxy v1.0)''),
             hello_name = take 127 (device_name cfg)\<rparr>;
          encoded = esphome_encode_hello_response env 512 response
      in if 0 < length encoded
         then (client, snd (send_message env client ESPHOME_MSG_HELLO_RESPONSE encoded))
         else (client, []))"

definition handle_connect_request ::
  "externals \<Rightarrow> esphome_device_config \<Rightarrow> client_connection \<Rightarrow> byte list
   \<Rightarrow> client_connection \<times> io_event list" where
  "handle_connect_request env cfg client payload =
     (let response = \<lparr>invalid_password = False\<rparr>;
          client1 = client\<lparr>authenticated := True\<rparr>;
          encoded = esphome_encode_connect_response env 32 response
      in if 0 < length encoded
         then (client1, snd (send_message env client1 ESPHOME_MSG_CONNECT_RESPONSE encoded))
         else (client1, []))"

definition handle_device_info_request ::
  "externals \<Rightarrow> esphome_device_config \<Rightarrow> client_connection \<Rightarrow> byte list
   \<Rightarrow> client_connection \<times> io_event list" where
  "handle_device_info_request env cfg client payload =
     (let response =
            \<lparr>uses_password = False,
             info_name = take 127 (device_name cfg),
             info_mac_address = take 23 (mac_address cfg),
             info_esphome_version = take 31 (esphome_version cfg),
             info_compilation_time = take 63 (compilation_time env),
             info_model = take 127 (model cfg),
             info_manufacturer = take 127 (manufacturer cfg),
             info_friendly_name = take 127 (friendly_name cfg),
             has_deep_sleep = False,
             info_suggested_area = take 63 (suggested_area cfg),
             bluetooth_proxy_feature_flags = BLE_FEATURE_PASSIVE_SCAN OR BLE_FEATURE_RAW_ADVERTISEMENTS,
             bluetooth_mac_address = take 23 (mac_address cfg)\<rparr>;
          encoded = esphome_encode_device_info_response env 1024 response
      in if 0 < length encoded
         then (client, snd (send_message env client ESPHOME_MSG_DEVICE_INFO_RESPONSE encoded))
         else (client, []))"

definition handle_list_entities_request ::
  "externals \<Rightarrow> esphome_device_config \<Rightarrow> client_connection \<Rightarrow> byte list
   \<Rightarrow> client_connection \<times> io_event list" where
  "handle_list_entities_request env cfg client payload =
     (client, snd (send_message env client ESPHOME_MSG_LIST_ENTITIES_DONE_RESPONSE []))"

definition handle_subscribe_states_request ::
  "externals \<Rightarrow> esphome_device_config \<Rightarrow> client_connection \<Rightarrow> byte list
   \<Rightarrow> client_connection \<times> io_event list" where
  "handle_subscribe_states_request env cfg client payload = (client, [])"

definition handle_subscribe_ble_advertisements ::
  "externals \<Rightarrow> esphome_device_config \<Rightarrow> client_connection \<Rightarrow> byte list
   \<Rightarrow> client_connection \<times> io_event list" where
  "handle_subscribe_ble_advertisements env cfg client payload =
     (case esphome_decode_subscribe_ble_advertisements env payload of
        Some flags \<Rightarrow> (client\<lparr>subscribed_ble := True\<rparr>, [])
      | None \<Rightarrow> (client, []))"

definition handle_ping_request ::
  "externals \<Rightarrow> esphome_device_config \<Rightarrow> client_connection \<Rightarrow> byte list
   \<Rightarrow> client_connection \<times> io_event list" where
  "handle_ping_request env cfg client payload =
     (client, snd (send_message env client ESPHOME_MSG_PING_RESPONSE []))"

definition handle_subscribe_homeassistant_services ::
  "externals \<Rightarrow> esphome_device_config \<Rightarrow> client_connection \<Rightarrow> byte list
   \<Rightarrow> client_connection \<times> io_event list" where
  "handle_subscribe_homeassistant_services env cfg client payload = (client, [])"

definition handle_subscribe_homeassistant_states ::
  "externals \<Rightarrow> esphome_device_config \<Rightarrow> client_connection \<Rightarrow> byte list
   \<Rightarrow> client_connection \<times> io_event list" where
  "handle_subscribe_homeassistant_states env cfg client payload = (client, [])"

text \<open>\<^verbatim>\<open>dispatch_message\<close>: the \<^verbatim>\<open>switch\<close> on the message type, in the order of its cases.\<close>

definition dispatch_message ::
  "externals \<Rightarrow> esphome_device_config \<Rightarrow> client_connection \<Rightarrow> 16 word \<Rightarrow> byte list
   \<Rightarrow> client_connection \<times> io_event list" where
  "dispatch_message env cfg client msg_type payload =
     (if msg_type = ESPHOME_MSG_HELLO_REQUEST then handle_hello_request env cfg client payload
      else if msg_type = ESPHOME_MSG_CONNECT_REQUEST then handle_connect_request env cfg client payload
      else if msg_type = ESPHOME_MSG_DEVICE_INFO_REQUEST
        then handle_device_info_request env cfg client payload
      else if msg_type = ESPHOME_MSG_LIST_ENTITIES_REQUEST
        then handle_list_entities_request env cfg client payload
      else if msg_type = ESPHOME_MSG_SUBSCRIBE_STATES_REQUEST
        then handle_subscribe_states_request env cfg client payload
      else if msg_type = ESPHOME_MSG_SUBSCRIBE_BLUETOOTH_LE_ADVERTISEMENTS_REQUEST
        then handle_subscribe_ble_advertisements env cfg client payload
      else if msg_type = ESPHOME_MSG_SUBSCRIBE_HOMEASSISTANT_SERVICES_REQUEST
        then handle_subscribe_homeassistant_services env cfg client payload
      else if msg_type = ESPHOME_MSG_SUBSCRIBE_HOMEASSISTANT_STATES_REQUEST
        then handle_subscribe_homeassistant_states env cfg client payload
      else if msg_type = ESPHOME_MSG_PING_REQUEST then handle_ping_request env cfg client payload
      else if msg_type = ESPHOME_MSG_DISCONNECT_REQUEST then (client, [])
      else (client, []))"


section \<open>Client handling\<close>

text \<open>No handler touches the receive buffer.\<close>

lemma dispatch_message_recv_buffer [simp]:
  "recv_buffer (fst (dispatch_message env cfg client msg_type payload)) = recv_buffer client"
  by (simp add: dispatch_message_def handle_hello_request_def handle_connect_request_def
      handle_device_info_request_def handle_list_entities_request_def
      handle_subscribe_states_request_def handle_subscribe_ble_advertisements_def
      handle_ping_request_def handle_subscribe_homeassistant_services_def
      handle_subscribe_homeassistant_states_def Let_def split: option.split)

text \<open>
  \<^verbatim>\<open>handle_client_data\<close>: while bytes are buffered, decode a header; stop when the header or
  the message is not complete yet; otherwise dispatch the payload and remove
  \<^verbatim>\<open>total_len\<close> bytes from the front of the buffer. \<^verbatim>\<open>total_len\<close> is a \<^verbatim>\<open>uint32_t\<close>, so the
  sum wraps around. When it wrapped, the payload of \<^verbatim>\<open>msg_len\<close> bytes does not lie within the
  received bytes, and with \<^verbatim>\<open>total_len = 0\<close> the C loop would not advance: the model stops
  there with the fault.
\<close>

function handle_client_data ::
  "externals \<Rightarrow> esphome_device_config \<Rightarrow> client_connection
   \<Rightarrow> fault + client_connection \<times> io_event list" where
  "handle_client_data env cfg client =
     (if recv_pos client = 0 then Inr (client, [])
      else
        (case esphome_decode_frame_header (recv_buffer client) of
           None \<Rightarrow> Inr (client, [])
         | Some (header_len, msg_len, msg_type) \<Rightarrow>
             let total_len = (of_nat header_len + msg_len :: 32 word)
             in if recv_pos client < unat total_len then Inr (client, [])
                else if unat total_len = 0 \<or> recv_pos client < header_len + unat msg_len
                  then Inl PayloadOutOfBounds
                else
                  let payload = take (unat msg_len) (drop header_len (recv_buffer client));
                      dispatched = dispatch_message env cfg client msg_type payload;
                      client1 = fst dispatched;
                      client2 = client1\<lparr>recv_buffer := drop (unat total_len) (recv_buffer client1)\<rparr>
                  in (case handle_client_data env cfg client2 of
                        Inl f \<Rightarrow> Inl f
                      | Inr (client3, events) \<Rightarrow>
                          Inr (client3, Dispatched msg_type payload # snd dispatched @ events))))"
  by pat_completeness auto
termination
  by (relation "measure (\<lambda>(env, cfg, client). recv_pos client)") auto

declare handle_client_data.simps [simp del]

definition client_thread_cleanup :: "client_connection \<Rightarrow> client_connection \<times> io_event list" where
  "client_thread_cleanup client =
     (let closed = client_close client in ((fst closed)\<lparr>thread_running := False\<rparr>, snd closed))"

text \<open>
  The loop of \<^verbatim>\<open>client_thread_func\<close> over the results of its calls of \<^verbatim>\<open>recv\<close>. A call asks
  for at most \<^verbatim>\<open>sizeof(recv_buffer) - recv_pos\<close> bytes, so it returns no more than that; a
  result of 0 bytes, the end of the stream or an error ends the loop, and the cleanup after
  the loop closes the client. When the results run out the thread is waiting in \<^verbatim>\<open>recv\<close>.
  \<open>run\<close> is \<^verbatim>\<open>server->running\<close>.
\<close>

fun client_thread_loop ::
  "externals \<Rightarrow> bool \<Rightarrow> esphome_device_config \<Rightarrow> client_connection \<Rightarrow> recv_result list
   \<Rightarrow> fault + client_connection \<times> io_event list" where
  "client_thread_loop env run cfg client [] =
     (if run \<and> 0 \<le> fd client then Inr (client, []) else Inr (client_thread_cleanup client))"
| "client_thread_loop env run cfg client (r # rs) =
     (if run \<and> 0 \<le> fd client then
        (case r of
           RecvData bytes \<Rightarrow>
             let received = take (RECV_BUFFER_SIZE - recv_pos client) bytes
             in if length received = 0 then Inr (client_thread_cleanup client)
                else
                  (case handle_client_data env cfg
                          (client\<lparr>recv_buffer := recv_buffer client @ received\<rparr>) of
                     Inl f \<Rightarrow> Inl f
                   | Inr (client1, events1) \<Rightarrow>
                       (case client_thread_loop env run cfg client1 rs of
                          Inl f \<Rightarrow> Inl f
                        | Inr (client2, events2) \<Rightarrow> Inr (client2, events1 @ events2)))
         | RecvClosed \<Rightarrow> Inr (client_thread_cleanup client)
         | RecvError \<Rightarrow> Inr (client_thread_cleanup client))
      else Inr (client_thread_cleanup client))"

text \<open>
  \<^verbatim>\<open>client_thread_func\<close> for the client in slot \<open>slot\<close> of the server: the thread works on
  \<^verbatim>\<open>&server->clients[slot]\<close> only.
\<close>

definition client_thread_func ::
  "externals \<Rightarrow> esphome_api_server \<Rightarrow> nat \<Rightarrow> recv_result list
   \<Rightarrow> fault + esphome_api_server \<times> io_event list" where
  "client_thread_func env server slot results =
     (case client_thread_loop env (running server) (config server) (clients server ! slot) results of
        Inl f \<Rightarrow> Inl f
      | Inr (client, events) \<Rightarrow>
          Inr (server\<lparr>clients := (clients server)[slot := client]\<rparr>, events))"


section \<open>BLE advertisement batching\<close>

text \<open>
  \<^verbatim>\<open>flush_ble_batch\<close>; \<open>now\<close> is what \<^verbatim>\<open>clock_gettime\<close> returns. The return value of
  \<^verbatim>\<open>send_message\<close> is not looked at.
\<close>

definition flush_ble_batch ::
  "externals \<Rightarrow> timespec \<Rightarrow> esphome_api_server \<Rightarrow> esphome_api_server \<times> io_event list" where
  "flush_ble_batch env now server =
     (if count (ble_batch server) = 0 then (server, [])
      else
        let encoded = esphome_encode_ble_advertisements env ESPHOME_MAX_MESSAGE_SIZE (ble_batch server)
        in if length encoded = 0
           then (server\<lparr>ble_batch := (ble_batch server)\<lparr>count := 0\<rparr>\<rparr>, [])
           else
             let events =
                   concat (map (\<lambda>i.
                       if 0 \<le> fd (clients server ! i) \<and> subscribed_ble (clients server ! i)
                       then snd (send_message env (clients server ! i)
                                   ESPHOME_MSG_BLUETOOTH_LE_RAW_ADVERTISEMENTS_RESPONSE encoded)
                       else [])
                     [0..<ESPHOME_MAX_CLIENTS])
             in (server\<lparr>ble_batch := (ble_batch server)\<lparr>count := 0\<rparr>, last_flush := now\<rparr>, events))"

text \<open>
  The part of \<^verbatim>\<open>esphome_api_queue_ble_advert\<close> that runs under the batch mutex once there
  is room ("Convert to protobuf format"): the entry at index \<open>count\<close> gets the packed
  address, the sign-extended RSSI and the address type, \<^verbatim>\<open>memcpy\<close> overwrites the first
  \<open>copy_len\<close> bytes of its data, where \<open>copy_len\<close> is \<^verbatim>\<open>data_len\<close> cut to
  \<^verbatim>\<open>sizeof(pb_adv->data)\<close>, and \<open>count\<close> goes up by one.
\<close>

definition store_ble_advert :: "esphome_api_server \<Rightarrow> esphome_ble_advert \<Rightarrow> esphome_api_server" where
  "store_ble_advert server adv =
     (let slot = count (ble_batch server);
          old = advertisements (ble_batch server) ! slot;
          copy_len =
            (if ESPHOME_MAX_ADV_DATA < adv_data_len adv then ESPHOME_MAX_ADV_DATA
             else adv_data_len adv);
          pb_adv =
            old\<lparr>pb_address := mac_to_uint64 (adv_address adv),
                pb_rssi := scast (adv_rssi adv),
                pb_address_type := ucast (adv_address_type adv),
                pb_data := take copy_len (adv_data adv) @ drop copy_len (pb_data old),
                pb_data_len := copy_len\<rparr>
      in server\<lparr>ble_batch :=
                  (ble_batch server)
                    \<lparr>advertisements := (advertisements (ble_batch server))[slot := pb_adv],
                     count := slot + 1\<rparr>\<rparr>)"

text \<open>
  \<^verbatim>\<open>esphome_api_queue_ble_advert\<close>. A pointer argument is \<open>None\<close> when it is \<^verbatim>\<open>NULL\<close>.
  \<open>now1\<close> and \<open>now2\<close> are the clock readings for the flush before and the flush after the
  entry is stored.
\<close>

definition esphome_api_queue_ble_advert ::
  "externals \<Rightarrow> timespec \<Rightarrow> timespec \<Rightarrow> esphome_api_server option \<Rightarrow> esphome_ble_advert option
   \<Rightarrow> esphome_api_server option \<times> io_event list" where
  "esphome_api_queue_ble_advert env now1 now2 server advert =
     (case server of
        None \<Rightarrow> (server, [])
      | Some srv \<Rightarrow>
          (case advert of
             None \<Rightarrow> (server, [])
           | Some adv \<Rightarrow>
               let flushed1 =
                     (if ESPHOME_MAX_ADV_BATCH \<le> count (ble_batch srv)
                      then flush_ble_batch env now1 srv else (srv, []));
                   srv2 = store_ble_advert (fst flushed1) adv;
                   flushed2 =
                     (if ESPHOME_MAX_ADV_BATCH \<le> count (ble_batch srv2)
                      then flush_ble_batch env now2 srv2 else (srv2, []))
               in (Some (fst flushed2), snd flushed1 @ snd flushed2)))"

text \<open>The advertisements a batch holds: the first \<open>count\<close> entries of its array.\<close>

definition batch_entries :: "esphome_ble_advertisements_response \<Rightarrow> esphome_ble_advertisement list" where
  "batch_entries batch = take (count batch) (advertisements batch)"


section \<open>TCP server and public API\<close>

text \<open>
  The search for a free slot in \<^verbatim>\<open>listen_thread_func\<close>: the first slot from \<open>i\<close> on whose
  \<open>fd\<close> is negative gets the new descriptor; the result is the array and the slot, -1 when
  none is free.
\<close>

function find_free_slot ::
  "client_connection list \<Rightarrow> int \<Rightarrow> nat \<Rightarrow> client_connection list \<times> int" where
  "find_free_slot cs client_fd i =
     (if i < ESPHOME_MAX_CLIENTS then
        (if fd (cs ! i) < 0 then (cs[i := (cs ! i)\<lparr>fd := client_fd\<rparr>], int i)
         else find_free_slot cs client_fd (i + 1))
      else (cs, - 1))"
  by pat_completeness auto
termination
  by (relation "measure (\<lambda>(cs, client_fd, i). ESPHOME_MAX_CLIENTS - i)") auto

declare find_free_slot.simps [simp del]

text \<open>
  One round of the loop of \<^verbatim>\<open>listen_thread_func\<close>, for the descriptor \<open>client_fd\<close> that
  \<^verbatim>\<open>accept\<close> returned; \<open>thread_ok\<close> says whether \<^verbatim>\<open>pthread_create\<close> succeeded. Setting
  \<^verbatim>\<open>TCP_NODELAY\<close> on the new socket is not modelled.
\<close>

definition listen_thread_accept ::
  "bool \<Rightarrow> esphome_api_server \<Rightarrow> int \<Rightarrow> esphome_api_server \<times> io_event list" where
  "listen_thread_accept thread_ok server client_fd =
     (if client_fd < 0 then (server, [])
      else
        let found = find_free_slot (clients server) client_fd 0;
            slot = snd found
        in if slot < 0 then (server\<lparr>clients := fst found\<rparr>, [CloseCall client_fd])
           else
             let client = (fst found ! nat slot)\<lparr>thread_running := True\<rparr>
             in if thread_ok
                then (server\<lparr>clients := (fst found)[nat slot := client]\<rparr>, [ThreadCreate (nat slot)])
                else
                  let closed = client_close client
                  in (server\<lparr>clients := (fst found)[nat slot := fst closed]\<rparr>, snd closed))"

text \<open>
  \<^verbatim>\<open>esphome_api_init\<close>: the zeroed server (\<^verbatim>\<open>calloc\<close>), every client initialised, and the
  clock reading \<open>now\<close> as the time of the last flush.
\<close>

definition esphome_api_init :: "esphome_device_config \<Rightarrow> timespec \<Rightarrow> esphome_api_server" where
  "esphome_api_init cfg now =
     \<lparr>config = cfg, listen_fd = - 1, running = False,
      clients = replicate ESPHOME_MAX_CLIENTS client_init,
      ble_batch =
        \<lparr>advertisements =
           replicate ESPHOME_MAX_ADV_BATCH
             \<lparr>pb_address = 0, pb_rssi = 0, pb_address_type = 0,
              pb_data = replicate ESPHOME_MAX_ADV_DATA 0, pb_data_len = 0\<rparr>,
         count = 0\<rparr>,
      last_flush = now\<rparr>"

text \<open>\<^verbatim>\<open>client_close\<close> for every slot, as the loops of \<^verbatim>\<open>esphome_api_stop\<close> and \<^verbatim>\<open>esphome_api_free\<close> do.\<close>

fun close_clients :: "client_connection list \<Rightarrow> client_connection list \<times> io_event list" where
  "close_clients [] = ([], [])"
| "close_clients (c # cs) =
     (fst (client_close c) # fst (close_clients cs), snd (client_close c) @ snd (close_clients cs))"

text \<open>
  \<^verbatim>\<open>esphome_api_stop\<close>. Joining the threads changes nothing in this thread; what the joined
  threads do themselves is \<open>client_thread_func\<close>.
\<close>

definition esphome_api_stop ::
  "esphome_api_server option \<Rightarrow> esphome_api_server option \<times> io_event list" where
  "esphome_api_stop server =
     (case server of
        None \<Rightarrow> (server, [])
      | Some srv \<Rightarrow>
          let srv1 = srv\<lparr>running := False\<rparr>;
              events1 =
                (if 0 \<le> listen_fd srv1 then [ShutdownCall (listen_fd srv1), CloseCall (listen_fd srv1)]
                 else []);
              srv2 = (if 0 \<le> listen_fd srv1 then srv1\<lparr>listen_fd := - 1\<rparr> else srv1);
              closed = close_clients (take ESPHOME_MAX_CLIENTS (clients srv2))
          in (Some (srv2\<lparr>clients := fst closed\<rparr>), events1 @ snd closed))"

text \<open>\<^verbatim>\<open>esphome_api_free\<close>: after it the server is gone.\<close>

definition esphome_api_free ::
  "esphome_api_server option \<Rightarrow> esphome_api_server option \<times> io_event list" where
  "esphome_api_free server =
     (case server of
        None \<Rightarrow> (server, [])
      | Some srv \<Rightarrow>
          (None, snd (close_clients (take ESPHOME_MAX_CLIENTS (clients srv))) @ [FreeCall]))"


section \<open>Traces and a sample environment\<close>

text \<open>The messages handed to \<^verbatim>\<open>dispatch_message\<close>, in order.\<close>

fun dispatched :: "io_event list \<Rightarrow> (16 word \<times> byte list) list" where
  "dispatched [] = []"
| "dispatched (Dispatched msg_type payload # events) = (msg_type, payload) # dispatched events"
| "dispatched (_ # events) = dispatched events"

text \<open>
  One choice of the collaborators, to run the model on examples: every encoder writes a
  short fixed payload or fails when its buffer is too small, the batch encoder writes two
  bytes for each entry of the batch, the decoder accepts every payload, and \<^verbatim>\<open>send\<close>
  returns -1 on the descriptors in \<open>broken\<close> and the length of the frame on any other.
\<close>

definition sample_externals :: "int list \<Rightarrow> externals" where
  "sample_externals broken =
     \<lparr>esphome_encode_hello_response =
        (\<lambda>size msg.
           if size < 4 then []
           else [0x08, ucast (api_version_major msg), 0x10, ucast (api_version_minor msg)]),
      esphome_encode_connect_response =
        (\<lambda>size msg. if size < 2 then [] else [0x08, if invalid_password msg then 1 else 0]),
      esphome_encode_device_info_response =
        (\<lambda>size msg. if size < 2 then [] else [0x78, ucast (bluetooth_proxy_feature_flags msg)]),
      esphome_encode_ble_advertisements =
        (\<lambda>size batch.
           if size < 2 * count batch then []
           else concat (map (\<lambda>adv. [0x0A, of_nat (pb_data_len adv)]) (batch_entries batch))),
      esphome_decode_subscribe_ble_advertisements = (\<lambda>payload. Some 0),
      sys_send = (\<lambda>fd frame. if fd \<in> set broken then - 1 else int (length frame)),
      compilation_time = ''Jan  1 2025 00:00:00''\<rparr>"

definition sample_config :: esphome_device_config where
  "sample_config =
     \<lparr>device_name = ''proxy'', mac_address = ''AA:BB:CC:DD:EE:FF'',
      esphome_version = ''2025.1.0'', model = ''cam'', manufacturer = ''thingino'',
      friendly_name = ''Proxy'', suggested_area = ''lab''\<rparr>"

definition sample_advert :: esphome_ble_advert where
  "sample_advert =
     \<lparr>adv_address = [0xAA, 0xBB, 0xCC, 0xDD, 0xEE, 0xFF], adv_address_type = 1, adv_rssi = 0xC4,
      adv_data = replicate ESPHOME_MAX_ADV_DATA 7, adv_data_len = 70\<rparr>"

text \<open>A running server whose two slots hold open connections on descriptors 5 and 6.\<close>

definition sample_server :: esphome_api_server where
  "sample_server =
     (esphome_api_init sample_config \<lparr>tv_sec = 0, tv_nsec = 0\<rparr>)
       \<lparr>listen_fd := 3, running := True,
        clients := [client_init\<lparr>fd := 5, thread_running := True\<rparr>,
                    client_init\<lparr>fd := 6, thread_running := True\<rparr>]\<rparr>"


section \<open>MAC packing\<close>

lemma upt_0_6: "[0..<6] = [0, 1, 2, 3, 4, 5 :: nat]"
  by (simp add: upt_rec)

lemma mac_to_uint64_six:
  "mac_to_uint64 [a, b, c, d, e, f] =
     push_bit 40 (ucast a) OR push_bit 32 (ucast b) OR push_bit 24 (ucast c) OR
     push_bit 16 (ucast d) OR push_bit 8 (ucast e) OR ucast f"
  by (simp add: mac_to_uint64_def upt_0_6 ac_simps)

lemma length_six_cases:
  assumes "length (mac :: 'a list) = 6"
  obtains a b c d e f where "mac = [a, b, c, d, e, f]"
proof -
  from assms obtain a m1 where "mac = a # m1" "length m1 = 5" by (cases mac) auto
  moreover then obtain b m2 where "m1 = b # m2" "length m2 = 4" by (cases m1) auto
  moreover then obtain c m3 where "m2 = c # m3" "length m3 = 3" by (cases m2) auto
  moreover then obtain d m4 where "m3 = d # m4" "length m4 = 2" by (cases m3) auto
  moreover then obtain e m5 where "m4 = e # m5" "length m5 = 1" by (cases m4) auto
  moreover then obtain f where "m5 = [f]" by (cases m5) auto
  ultimately show ?thesis using that by blast
qed

lemma mac_to_uint64_top: "drop_bit 48 (mac_to_uint64 [a, b, c, d, e, f]) = 0"
  unfolding mac_to_uint64_six
  by (rule bit_word_eqI) (auto simp add: bit_simps dest: bit_imp_le_length)

lemma mac_to_uint64_bytes:
  "ucast (drop_bit 40 (mac_to_uint64 [a, b, c, d, e, f])) = a"
  "ucast (drop_bit 32 (mac_to_uint64 [a, b, c, d, e, f])) = b"
  "ucast (drop_bit 24 (mac_to_uint64 [a, b, c, d, e, f])) = c"
  "ucast (drop_bit 16 (mac_to_uint64 [a, b, c, d, e, f])) = d"
  "ucast (drop_bit 8 (mac_to_uint64 [a, b, c, d, e, f])) = e"
  "ucast (mac_to_uint64 [a, b, c, d, e, f]) = f"
  unfolding mac_to_uint64_six
  by (rule bit_word_eqI; auto simp add: bit_simps dest: bit_imp_le_length)+

text \<open>
  C6. For every MAC address of 6 bytes, the bits of \<open>mac_to_uint64 mac\<close> from bit 48 up
  (its top two bytes) are zero, and byte \<open>i\<close> of the address is the byte at bit position
  \<open>(5 - i) * 8\<close> of the result: the first byte is the most significant of the six. In
  particular AA:BB:CC:DD:EE:FF packs to 0x0000AABBCCDDEEFF.
\<close>

theorem mac_to_uint64_packs_msb_first:
  assumes "length mac = 6"
  shows "drop_bit 48 (mac_to_uint64 mac) = 0
    \<and> (\<forall>i<6. ucast (drop_bit ((5 - i) * 8) (mac_to_uint64 mac)) = mac ! i)
    \<and> mac_to_uint64 [0xAA, 0xBB, 0xCC, 0xDD, 0xEE, 0xFF] = 0x0000AABBCCDDEEFF"
proof -
  from assms obtain a b c d e f where mac: "mac = [a, b, c, d, e, f]"
    by (rule length_six_cases)
  have byte: "ucast (drop_bit ((5 - i) * 8) (mac_to_uint64 mac)) = mac ! i" if "i < 6" for i
  proof -
    from that consider "i = 0" | "i = 1" | "i = 2" | "i = 3" | "i = 4" | "i = 5"
      by linarith
    then show ?thesis
      by cases (simp_all add: mac mac_to_uint64_bytes)
  qed
  have example: "mac_to_uint64 [0xAA, 0xBB, 0xCC, 0xDD, 0xEE, 0xFF] = 0x0000AABBCCDDEEFF"
    by (simp add: mac_to_uint64_six)
  from byte example show ?thesis
    by (simp add: mac mac_to_uint64_top)
qed

theorem mac_to_uint64_packs_msb_first_witness:
  "length [0x12, 0x34, 0x56, 0x78, 0x9A, 0xBC :: byte] = 6
    \<and> mac_to_uint64 [0x12, 0x34, 0x56, 0x78, 0x9A, 0xBC] = 0x123456789ABC
    \<and> drop_bit 48 (mac_to_uint64 [0x12, 0x34, 0x56, 0x78, 0x9A, 0xBC]) = 0
    \<and> ucast (drop_bit ((5 - 1) * 8) (mac_to_uint64 [0x12, 0x34, 0x56, 0x78, 0x9A, 0xBC]))
        = (0x34 :: byte)"
proof -
  have len: "length [0x12, 0x34, 0x56, 0x78, 0x9A, 0xBC :: byte] = 6"
    by simp
  note packed = mac_to_uint64_packs_msb_first [OF len]
  have top: "drop_bit 48 (mac_to_uint64 [0x12, 0x34, 0x56, 0x78, 0x9A, 0xBC]) = 0"
    by (rule packed [THEN conjunct1])
  have "ucast (drop_bit ((5 - 1) * 8) (mac_to_uint64 [0x12, 0x34, 0x56, 0x78, 0x9A, 0xBC]))
          = [0x12, 0x34, 0x56, 0x78, 0x9A, 0xBC :: byte] ! 1"
    by (rule packed [THEN conjunct2, THEN conjunct1, rule_format]) simp
  then have second: "ucast (drop_bit ((5 - 1) * 8) (mac_to_uint64 [0x12, 0x34, 0x56, 0x78, 0x9A, 0xBC]))
          = (0x34 :: byte)"
    by simp
  have val: "mac_to_uint64 [0x12, 0x34, 0x56, 0x78, 0x9A, 0xBC] = 0x123456789ABC"
    by (simp add: mac_to_uint64_six)
  from len top second val show ?thesis
    by blast
qed


section \<open>Dispatch and authentication\<close>

lemmas handler_defs =
  handle_hello_request_def handle_connect_request_def
  handle_device_info_request_def handle_list_entities_request_def
  handle_subscribe_states_request_def handle_subscribe_ble_advertisements_def
  handle_ping_request_def handle_subscribe_homeassistant_services_def
  handle_subscribe_homeassistant_states_def

lemma send_message_authenticated:
  "send_message env (client\<lparr>authenticated := a\<rparr>) msg_type payload
     = send_message env client msg_type payload"
  by (simp add: send_message_def Let_def)

text \<open>
  C7. Dispatch does not depend on the authentication state. Run \<open>dispatch_message\<close> on the
  same message for a client and for the same client with any other value \<open>a\<close> of the
  \<open>authenticated\<close> flag: the calls of \<^verbatim>\<open>send\<close> are the same, the resulting clients agree
  on every field but \<open>authenticated\<close>, and \<open>authenticated\<close> itself ends up true after a
  ConnectRequest and keeps its value \<open>a\<close> after any other message. The handler is chosen by
  the message type alone.
\<close>

theorem dispatch_message_ignores_authenticated:
  "snd (dispatch_message env cfg (client\<lparr>authenticated := a\<rparr>) msg_type payload)
      = snd (dispatch_message env cfg client msg_type payload)
   \<and> (fst (dispatch_message env cfg (client\<lparr>authenticated := a\<rparr>) msg_type payload))
        \<lparr>authenticated := b\<rparr>
      = (fst (dispatch_message env cfg client msg_type payload))\<lparr>authenticated := b\<rparr>
   \<and> authenticated (fst (dispatch_message env cfg (client\<lparr>authenticated := a\<rparr>) msg_type payload))
      = (if msg_type = ESPHOME_MSG_CONNECT_REQUEST then True else a)"
  by (simp add: dispatch_message_def handler_defs send_message_authenticated Let_def
      split: option.split)

theorem dispatch_message_ignores_authenticated_witness:
  "snd (dispatch_message (sample_externals []) sample_config
          (client_init\<lparr>fd := 5, authenticated := True\<rparr>) ESPHOME_MSG_DEVICE_INFO_REQUEST [])
      = snd (dispatch_message (sample_externals []) sample_config (client_init\<lparr>fd := 5\<rparr>)
          ESPHOME_MSG_DEVICE_INFO_REQUEST [])
   \<and> snd (dispatch_message (sample_externals []) sample_config (client_init\<lparr>fd := 5\<rparr>)
          ESPHOME_MSG_DEVICE_INFO_REQUEST [])
      = [SendCall 5 [0, 3, 10, 0x78, 0x21] 5]"
proof -
  have "snd (dispatch_message (sample_externals []) sample_config (client_init\<lparr>fd := 5\<rparr>)
          ESPHOME_MSG_DEVICE_INFO_REQUEST [])
      = [SendCall 5 [0, 3, 10, 0x78, 0x21] 5]"
    by (simp add: dispatch_message_def handler_defs send_message_def sample_externals_def
        esphome_frame_message_def pb_encode_varint.simps client_init_def Let_def)
  with dispatch_message_ignores_authenticated
    [where env = "sample_externals []" and cfg = sample_config
       and client = "client_init\<lparr>fd := 5\<rparr>" and a = True
       and msg_type = ESPHOME_MSG_DEVICE_INFO_REQUEST and payload = "[]" and b = False]
  show ?thesis by simp
qed


section \<open>NULL arguments\<close>

text \<open>
  C10. \<open>esphome_api_queue_ble_advert\<close> with a NULL server or a NULL advertisement, and
  \<open>esphome_api_stop\<close> and \<open>esphome_api_free\<close> with a NULL server, return at once: the
  server (if there is one) is returned as it was and nothing is done to the outside world.
\<close>

theorem null_arguments_are_noops:
  "esphome_api_queue_ble_advert env now1 now2 None advert = (None, [])
   \<and> esphome_api_queue_ble_advert env now1 now2 server None = (server, [])
   \<and> esphome_api_stop None = (None, [])
   \<and> esphome_api_free None = (None, [])"
  by (simp add: esphome_api_queue_ble_advert_def esphome_api_stop_def esphome_api_free_def
      split: option.split)

theorem null_arguments_are_noops_witness:
  "esphome_api_queue_ble_advert (sample_externals []) \<lparr>tv_sec = 1, tv_nsec = 0\<rparr>
      \<lparr>tv_sec = 1, tv_nsec = 5\<rparr> None (Some sample_advert) = (None, [])
   \<and> esphome_api_queue_ble_advert (sample_externals []) \<lparr>tv_sec = 1, tv_nsec = 0\<rparr>
      \<lparr>tv_sec = 1, tv_nsec = 5\<rparr> (Some sample_server) None = (Some sample_server, [])
   \<and> esphome_api_stop None = (None, [])
   \<and> esphome_api_free None = (None, [])"
  by (rule null_arguments_are_noops)


section \<open>Flushing the batch\<close>

lemma flush_ble_batch_count [simp]:
  "count (ble_batch (fst (flush_ble_batch env now server))) = 0"
  by (simp add: flush_ble_batch_def Let_def)

lemma flush_ble_batch_advertisements [simp]:
  "advertisements (ble_batch (fst (flush_ble_batch env now server))) = advertisements (ble_batch server)"
  by (simp add: flush_ble_batch_def Let_def)

lemma flush_ble_batch_clients [simp]:
  "clients (fst (flush_ble_batch env now server)) = clients server"
  by (simp add: flush_ble_batch_def Let_def)

lemma pb_encode_varint_length:
  "v < 128 ^ k \<Longrightarrow> 0 < k \<Longrightarrow> length (pb_encode_varint v) \<le> k"
proof (induction v arbitrary: k rule: pb_encode_varint.induct)
  case (1 v)
  show ?case
  proof (cases "v < 128")
    case True
    with "1.prems" show ?thesis by (simp add: pb_encode_varint.simps)
  next
    case False
    with "1.prems" obtain k' where k: "k = Suc k'" by (cases k) auto
    from False "1.prems" k have "0 < k'" by (cases k') auto
    moreover from "1.prems" k have "v div 128 < 128 ^ k'"
      by (simp add: less_mult_imp_div_less mult.commute)
    ultimately have "length (pb_encode_varint (v div 128)) \<le> k'"
      using "1.IH" False by blast
    with False k show ?thesis by (simp add: pb_encode_varint.simps[of v])
  qed
qed

lemma pb_encode_varint_nonempty [simp]: "pb_encode_varint v \<noteq> []"
  by (simp add: pb_encode_varint.simps[of v])

lemma esphome_frame_message_fits:
  assumes "length payload \<le> ESPHOME_MAX_MESSAGE_SIZE"
  shows "esphome_frame_message SEND_BUFFER_SIZE msg_type payload
     = 0 # pb_encode_varint (length (pb_encode_varint (unat msg_type)) + length payload)
         @ pb_encode_varint (unat msg_type) @ payload"
proof -
  have "unat msg_type < 2 ^ 16" using unsigned_less[of msg_type] by simp
  then have "unat msg_type < 128 ^ 3" by simp
  then have t: "length (pb_encode_varint (unat msg_type)) \<le> 3"
    by (rule pb_encode_varint_length) simp
  with assms have "length (pb_encode_varint (unat msg_type)) + length payload < 128 ^ 2" by simp
  then have "length (pb_encode_varint (length (pb_encode_varint (unat msg_type)) + length payload)) \<le> 2"
    by (rule pb_encode_varint_length) simp
  with t assms show ?thesis
    by (simp add: esphome_frame_message_def Let_def)
qed

lemma concat_map_if_filter:
  "concat (map (\<lambda>x. if P x then [f x] else []) xs) = map f (filter P xs)"
  by (induction xs) auto

lemma length_two_cases:
  assumes "length (cs :: 'a list) = 2"
  obtains a b where "cs = [a, b]"
proof -
  from assms obtain a cs1 where "cs = a # cs1" "length cs1 = 1" by (cases cs) auto
  moreover then obtain b where "cs1 = [b]" by (cases cs1) auto
  ultimately show ?thesis using that by blast
qed

lemma upt_0_2: "[0..<2] = [0, 1 :: nat]"
  by (simp add: upt_rec)

lemma two_slots: "length cs = 2 \<Longrightarrow> map (\<lambda>i. g (cs ! i)) [0..<2] = map g cs"
  by (erule length_two_cases) (simp add: upt_0_2)

lemma flush_ble_batch_encoded:
  assumes "length (clients server) = ESPHOME_MAX_CLIENTS"
    and "count (ble_batch server) \<noteq> 0"
    and "esphome_encode_ble_advertisements env ESPHOME_MAX_MESSAGE_SIZE (ble_batch server) = encoded"
    and "encoded \<noteq> []" and "length encoded \<le> ESPHOME_MAX_MESSAGE_SIZE"
    and "frame = esphome_frame_message SEND_BUFFER_SIZE
                  ESPHOME_MSG_BLUETOOTH_LE_RAW_ADVERTISEMENTS_RESPONSE encoded"
  shows "frame \<noteq> []"
    and "flush_ble_batch env now server =
           (server\<lparr>ble_batch := (ble_batch server)\<lparr>count := 0\<rparr>, last_flush := now\<rparr>,
            map (\<lambda>c. SendCall (fd c) frame (sys_send env (fd c) frame))
              (filter (\<lambda>c. 0 \<le> fd c \<and> subscribed_ble c) (clients server)))"
proof -
  from assms(5,6) show fits: "frame \<noteq> []"
    by (simp add: esphome_frame_message_fits)
  then have send:
    "snd (send_message env c ESPHOME_MSG_BLUETOOTH_LE_RAW_ADVERTISEMENTS_RESPONSE encoded)
      = [SendCall (fd c) frame (sys_send env (fd c) frame)]" for c
    by (simp add: send_message_def Let_def assms(6))
  have "concat (map (\<lambda>i.
           if 0 \<le> fd (clients server ! i) \<and> subscribed_ble (clients server ! i)
           then snd (send_message env (clients server ! i)
                       ESPHOME_MSG_BLUETOOTH_LE_RAW_ADVERTISEMENTS_RESPONSE encoded)
           else []) [0..<ESPHOME_MAX_CLIENTS])
      = concat (map (\<lambda>c. if 0 \<le> fd c \<and> subscribed_ble c
           then [SendCall (fd c) frame (sys_send env (fd c) frame)] else []) (clients server))"
    using two_slots [OF assms(1), of "\<lambda>c. if 0 \<le> fd c \<and> subscribed_ble c
           then snd (send_message env c ESPHOME_MSG_BLUETOOTH_LE_RAW_ADVERTISEMENTS_RESPONSE encoded)
           else []"]
    by (simp only: send)
  also have "\<dots> = map (\<lambda>c. SendCall (fd c) frame (sys_send env (fd c) frame))
                   (filter (\<lambda>c. 0 \<le> fd c \<and> subscribed_ble c) (clients server))"
    by (rule concat_map_if_filter)
  finally have events: "concat (map (\<lambda>i.
           if 0 \<le> fd (clients server ! i) \<and> subscribed_ble (clients server ! i)
           then snd (send_message env (clients server ! i)
                       ESPHOME_MSG_BLUETOOTH_LE_RAW_ADVERTISEMENTS_RESPONSE encoded)
           else []) [0..<ESPHOME_MAX_CLIENTS])
      = map (\<lambda>c. SendCall (fd c) frame (sys_send env (fd c) frame))
          (filter (\<lambda>c. 0 \<le> fd c \<and> subscribed_ble c) (clients server))" .
  from assms(2-4) show "flush_ble_batch env now server =
           (server\<lparr>ble_batch := (ble_batch server)\<lparr>count := 0\<rparr>, last_flush := now\<rparr>,
            map (\<lambda>c. SendCall (fd c) frame (sys_send env (fd c) frame))
              (filter (\<lambda>c. 0 \<le> fd c \<and> subscribed_ble c) (clients server)))"
    by (simp add: flush_ble_batch_def Let_def events)
qed

text \<open>
  When the encoder fails (length 0) the batch is dropped: nothing is sent, \<open>count\<close> becomes 0
  and \<open>last_flush\<close> keeps its value.
\<close>

lemma flush_ble_batch_encode_failure:
  assumes "count (ble_batch server) \<noteq> 0"
    and "esphome_encode_ble_advertisements env ESPHOME_MAX_MESSAGE_SIZE (ble_batch server) = []"
  shows "flush_ble_batch env now server
           = (server\<lparr>ble_batch := (ble_batch server)\<lparr>count := 0\<rparr>\<rparr>, [])"
  using assms by (simp add: flush_ble_batch_def)

text \<open>
  C4. For a server with its two client slots: a flush of an empty batch (\<open>count = 0\<close>)
  returns the server unchanged and sends nothing. A flush of a non-empty batch that the
  encoder turned into a payload (non-empty, within its 4096 byte buffer) frames that payload
  once as message 93, BluetoothLERawAdvertisementsResponse, calls \<^verbatim>\<open>send\<close> with that one
  frame for exactly the clients with \<open>fd \<ge> 0\<close> and \<open>subscribed_ble\<close>, in slot order, and
  leaves the server with \<open>count = 0\<close> and \<open>last_flush\<close> set to the clock reading; nothing
  else of the server changes.
\<close>

theorem flush_ble_batch_broadcasts:
  assumes "length (clients server) = ESPHOME_MAX_CLIENTS"
  shows "(count (ble_batch server) = 0 \<longrightarrow> flush_ble_batch env now server = (server, []))
    \<and> (count (ble_batch server) \<noteq> 0
        \<and> esphome_encode_ble_advertisements env ESPHOME_MAX_MESSAGE_SIZE (ble_batch server) = encoded
        \<and> encoded \<noteq> [] \<and> length encoded \<le> ESPHOME_MAX_MESSAGE_SIZE
       \<longrightarrow> (\<exists>frame. frame \<noteq> []
            \<and> frame = esphome_frame_message SEND_BUFFER_SIZE
                  ESPHOME_MSG_BLUETOOTH_LE_RAW_ADVERTISEMENTS_RESPONSE encoded
            \<and> flush_ble_batch env now server =
                (server\<lparr>ble_batch := (ble_batch server)\<lparr>count := 0\<rparr>, last_flush := now\<rparr>,
                 map (\<lambda>c. SendCall (fd c) frame (sys_send env (fd c) frame))
                   (filter (\<lambda>c. 0 \<le> fd c \<and> subscribed_ble c) (clients server)))))"
proof (intro conjI impI)
  assume "count (ble_batch server) = 0"
  then show "flush_ble_batch env now server = (server, [])"
    by (simp add: flush_ble_batch_def)
next
  assume a: "count (ble_batch server) \<noteq> 0
        \<and> esphome_encode_ble_advertisements env ESPHOME_MAX_MESSAGE_SIZE (ble_batch server) = encoded
        \<and> encoded \<noteq> [] \<and> length encoded \<le> ESPHOME_MAX_MESSAGE_SIZE"
  define frame where "frame = esphome_frame_message SEND_BUFFER_SIZE
                  ESPHOME_MSG_BLUETOOTH_LE_RAW_ADVERTISEMENTS_RESPONSE encoded"
  from a have "frame \<noteq> []"
    using flush_ble_batch_encoded(1) [OF assms _ _ _ _ frame_def] by blast
  moreover from a have "flush_ble_batch env now server =
           (server\<lparr>ble_batch := (ble_batch server)\<lparr>count := 0\<rparr>, last_flush := now\<rparr>,
            map (\<lambda>c. SendCall (fd c) frame (sys_send env (fd c) frame))
              (filter (\<lambda>c. 0 \<le> fd c \<and> subscribed_ble c) (clients server)))"
    using flush_ble_batch_encoded(2) [OF assms _ _ _ _ frame_def] by blast
  ultimately show "\<exists>frame. frame \<noteq> []
            \<and> frame = esphome_frame_message SEND_BUFFER_SIZE
                  ESPHOME_MSG_BLUETOOTH_LE_RAW_ADVERTISEMENTS_RESPONSE encoded
            \<and> flush_ble_batch env now server =
                (server\<lparr>ble_batch := (ble_batch server)\<lparr>count := 0\<rparr>, last_flush := now\<rparr>,
                 map (\<lambda>c. SendCall (fd c) frame (sys_send env (fd c) frame))
                   (filter (\<lambda>c. 0 \<le> fd c \<and> subscribed_ble c) (clients server)))"
    unfolding frame_def by blast
qed

lemma sample_frame:
  "esphome_frame_message SEND_BUFFER_SIZE ESPHOME_MSG_BLUETOOTH_LE_RAW_ADVERTISEMENTS_RESPONSE [0x0A, 0]
     = [0, 3, 93, 0x0A, 0]"
  by (simp add: esphome_frame_message_def pb_encode_varint.simps Let_def)

theorem flush_ble_batch_broadcasts_witness:
  "length (clients (sample_server\<lparr>clients := [client_init\<lparr>fd := 5, subscribed_ble := True\<rparr>, client_init\<lparr>fd := 6\<rparr>],
                      ble_batch := (ble_batch sample_server)\<lparr>count := 1\<rparr>\<rparr>)) = ESPHOME_MAX_CLIENTS
   \<and> esphome_encode_ble_advertisements (sample_externals []) ESPHOME_MAX_MESSAGE_SIZE
        ((ble_batch sample_server)\<lparr>count := 1\<rparr>) = [0x0A, 0]
   \<and> flush_ble_batch (sample_externals []) \<lparr>tv_sec = 9, tv_nsec = 0\<rparr>
        (sample_server\<lparr>clients := [client_init\<lparr>fd := 5, subscribed_ble := True\<rparr>, client_init\<lparr>fd := 6\<rparr>],
                      ble_batch := (ble_batch sample_server)\<lparr>count := 1\<rparr>\<rparr>)
      = (sample_server\<lparr>clients := [client_init\<lparr>fd := 5, subscribed_ble := True\<rparr>, client_init\<lparr>fd := 6\<rparr>],
                      ble_batch := (ble_batch sample_server)\<lparr>count := 0\<rparr>,
                      last_flush := \<lparr>tv_sec = 9, tv_nsec = 0\<rparr>\<rparr>,
         [SendCall 5 [0, 3, 93, 0x0A, 0] 5])"
proof -
  define S where "S = sample_server\<lparr>clients := [client_init\<lparr>fd := 5, subscribed_ble := True\<rparr>, client_init\<lparr>fd := 6\<rparr>],
                      ble_batch := (ble_batch sample_server)\<lparr>count := 1\<rparr>\<rparr>"
  have len: "length (clients S) = ESPHOME_MAX_CLIENTS"
    by (simp add: S_def)
  have enc: "esphome_encode_ble_advertisements (sample_externals []) ESPHOME_MAX_MESSAGE_SIZE
        ((ble_batch sample_server)\<lparr>count := 1\<rparr>) = [0x0A, 0]"
    by (simp add: sample_externals_def sample_server_def esphome_api_init_def batch_entries_def)
  have pre: "count (ble_batch S) \<noteq> 0
        \<and> esphome_encode_ble_advertisements (sample_externals []) ESPHOME_MAX_MESSAGE_SIZE (ble_batch S) = [0x0A, 0]
        \<and> [0x0A, 0 :: byte] \<noteq> [] \<and> length [0x0A, 0 :: byte] \<le> ESPHOME_MAX_MESSAGE_SIZE"
    using enc by (simp add: S_def)
  from flush_ble_batch_broadcasts [OF len, where env = "sample_externals []" and encoded = "[0x0A, 0]"
      and now = "\<lparr>tv_sec = 9, tv_nsec = 0\<rparr>"] pre
  have "flush_ble_batch (sample_externals []) \<lparr>tv_sec = 9, tv_nsec = 0\<rparr> S =
          (S\<lparr>ble_batch := (ble_batch S)\<lparr>count := 0\<rparr>, last_flush := \<lparr>tv_sec = 9, tv_nsec = 0\<rparr>\<rparr>,
           map (\<lambda>c. SendCall (fd c) [0, 3, 93, 0x0A, 0] (sys_send (sample_externals []) (fd c) [0, 3, 93, 0x0A, 0]))
             (filter (\<lambda>c. 0 \<le> fd c \<and> subscribed_ble c) (clients S)))"
    by (simp only: sample_frame) blast
  then have "flush_ble_batch (sample_externals []) \<lparr>tv_sec = 9, tv_nsec = 0\<rparr> S
      = (sample_server\<lparr>clients := [client_init\<lparr>fd := 5, subscribed_ble := True\<rparr>, client_init\<lparr>fd := 6\<rparr>],
                      ble_batch := (ble_batch sample_server)\<lparr>count := 0\<rparr>,
                      last_flush := \<lparr>tv_sec = 9, tv_nsec = 0\<rparr>\<rparr>,
         [SendCall 5 [0, 3, 93, 0x0A, 0] 5])"
    by (simp add: S_def client_init_def sample_externals_def)
  with len enc show ?thesis
    unfolding S_def by blast
qed

section \<open>Queueing an advertisement\<close>

lemma store_ble_advert_entries:
  assumes "count (ble_batch server) < length (advertisements (ble_batch server))"
    and "length (adv_data adv) = ESPHOME_MAX_ADV_DATA"
  shows "\<exists>entry. batch_entries (ble_batch (store_ble_advert server adv))
            = batch_entries (ble_batch server) @ [entry]
          \<and> entry = advertisements (ble_batch (store_ble_advert server adv)) ! count (ble_batch server)
          \<and> pb_address entry = mac_to_uint64 (adv_address adv)
          \<and> pb_rssi entry = scast (adv_rssi adv)
          \<and> pb_address_type entry = ucast (adv_address_type adv)
          \<and> pb_data_len entry = min (adv_data_len adv) ESPHOME_MAX_ADV_DATA
          \<and> take (pb_data_len entry) (pb_data entry) = take (pb_data_len entry) (adv_data adv)"
  using assms
  by (simp add: store_ble_advert_def batch_entries_def Let_def take_Suc_conv_app_nth min_def)

lemma rssi_sign_extended: "sint (scast (x :: byte) :: 32 word) = sint x"
  by (simp add: sint_up_scast is_up)

lemma address_type_zero_extended: "unat (ucast (x :: byte) :: 32 word) = unat x"
proof -
  have "uint (ucast x :: 32 word) = uint x"
    by (rule uint_up_ucast) (simp add: is_up)
  then show ?thesis
    by (simp only: unat_eq_nat_uint)
qed

lemma store_ble_advert_count [simp]:
  "count (ble_batch (store_ble_advert server adv)) = count (ble_batch server) + 1"
  by (simp add: store_ble_advert_def Let_def)

text \<open>
  C3. Queueing an advertisement on a server whose batch array has its 16 entries. If the
  batch already holds 16 entries (or more) it is flushed first, so there is room: \<open>room\<close> is
  the server after that flush, or the server itself, and its count is below 16. The
  advertisement is then stored as the last entry of the batch: the entries of \<open>stored\<close> are
  those of \<open>room\<close> followed by \<open>entry\<close>, which carries the packed address, the RSSI, the
  address type and the data of the advertisement. The call ends with \<open>stored\<close> when its
  count is below 16 and with the flush of \<open>stored\<close>, all 16 entries with the new one last,
  when the count reached 16: the entry is in the batch or in a batch handed to the flush,
  never dropped. The count is at most 16 after the call and after a flush.
\<close>

theorem queue_ble_advert_appends_within_capacity:
  assumes "length (advertisements (ble_batch srv)) = ESPHOME_MAX_ADV_BATCH"
    and "length (adv_data adv) = ESPHOME_MAX_ADV_DATA"
  shows "\<exists>room stored entry.
      room = (if ESPHOME_MAX_ADV_BATCH \<le> count (ble_batch srv)
              then fst (flush_ble_batch env now1 srv) else srv)
    \<and> count (ble_batch room) < ESPHOME_MAX_ADV_BATCH
    \<and> stored = store_ble_advert room adv
    \<and> batch_entries (ble_batch stored) = batch_entries (ble_batch room) @ [entry]
    \<and> pb_address entry = mac_to_uint64 (adv_address adv)
    \<and> sint (pb_rssi entry) = sint (adv_rssi adv)
    \<and> unat (pb_address_type entry) = unat (adv_address_type adv)
    \<and> pb_data_len entry = min (adv_data_len adv) ESPHOME_MAX_ADV_DATA
    \<and> take (pb_data_len entry) (pb_data entry) = take (pb_data_len entry) (adv_data adv)
    \<and> esphome_api_queue_ble_advert env now1 now2 (Some srv) (Some adv)
        = (if count (ble_batch stored) < ESPHOME_MAX_ADV_BATCH
           then (Some stored,
                 if ESPHOME_MAX_ADV_BATCH \<le> count (ble_batch srv)
                 then snd (flush_ble_batch env now1 srv) else [])
           else (Some (fst (flush_ble_batch env now2 stored)),
                 (if ESPHOME_MAX_ADV_BATCH \<le> count (ble_batch srv)
                  then snd (flush_ble_batch env now1 srv) else [])
                 @ snd (flush_ble_batch env now2 stored)))
    \<and> count (ble_batch (the (fst (esphome_api_queue_ble_advert env now1 now2 (Some srv) (Some adv)))))
        \<le> ESPHOME_MAX_ADV_BATCH
    \<and> count (ble_batch (fst (flush_ble_batch env now1 srv))) \<le> ESPHOME_MAX_ADV_BATCH"
proof -
  define room where "room = (if ESPHOME_MAX_ADV_BATCH \<le> count (ble_batch srv)
              then fst (flush_ble_batch env now1 srv) else srv)"
  define stored where "stored = store_ble_advert room adv"
  have room_count: "count (ble_batch room) < ESPHOME_MAX_ADV_BATCH"
    by (simp add: room_def)
  have room_len: "length (advertisements (ble_batch room)) = ESPHOME_MAX_ADV_BATCH"
    using assms(1) by (simp add: room_def)
  from room_count room_len
  have "count (ble_batch room) < length (advertisements (ble_batch room))" by simp
  from store_ble_advert_entries [OF this assms(2)]
  obtain entry where entry:
    "batch_entries (ble_batch stored) = batch_entries (ble_batch room) @ [entry]"
    "pb_address entry = mac_to_uint64 (adv_address adv)"
    "pb_rssi entry = scast (adv_rssi adv)"
    "pb_address_type entry = ucast (adv_address_type adv)"
    "pb_data_len entry = min (adv_data_len adv) ESPHOME_MAX_ADV_DATA"
    "take (pb_data_len entry) (pb_data entry) = take (pb_data_len entry) (adv_data adv)"
    unfolding stored_def by blast
  have result: "esphome_api_queue_ble_advert env now1 now2 (Some srv) (Some adv)
        = (if count (ble_batch stored) < ESPHOME_MAX_ADV_BATCH
           then (Some stored,
                 if ESPHOME_MAX_ADV_BATCH \<le> count (ble_batch srv)
                 then snd (flush_ble_batch env now1 srv) else [])
           else (Some (fst (flush_ble_batch env now2 stored)),
                 (if ESPHOME_MAX_ADV_BATCH \<le> count (ble_batch srv)
                  then snd (flush_ble_batch env now1 srv) else [])
                 @ snd (flush_ble_batch env now2 stored)))"
    by (simp add: esphome_api_queue_ble_advert_def Let_def stored_def room_def not_less)
  have bound: "count (ble_batch (the (fst (esphome_api_queue_ble_advert env now1 now2 (Some srv) (Some adv)))))
        \<le> ESPHOME_MAX_ADV_BATCH"
    unfolding result by simp
  have rssi: "sint (pb_rssi entry) = sint (adv_rssi adv)"
    by (simp add: entry rssi_sign_extended)
  have atype: "unat (pb_address_type entry) = unat (adv_address_type adv)"
    by (simp add: entry address_type_zero_extended)
  have flushed: "count (ble_batch (fst (flush_ble_batch env now1 srv))) \<le> ESPHOME_MAX_ADV_BATCH"
    by simp
  show ?thesis
    apply (rule exI [of _ room])
    apply (rule exI [of _ stored])
    apply (rule exI [of _ entry])
    apply (intro conjI)
                apply (rule room_def)
               apply (rule room_count)
              apply (rule stored_def)
             apply (rule entry(1))
            apply (rule entry(2))
           apply (rule rssi)
          apply (rule atype)
         apply (rule entry(5))
        apply (rule entry(6))
       apply (rule result)
     apply (rule bound)
    apply (rule flushed)
    done
qed


theorem queue_ble_advert_appends_within_capacity_witness:
  "length (advertisements (ble_batch sample_server)) = ESPHOME_MAX_ADV_BATCH
   \<and> length (adv_data sample_advert) = ESPHOME_MAX_ADV_DATA
   \<and> count (ble_batch sample_server) = 0
   \<and> snd (esphome_api_queue_ble_advert (sample_externals []) \<lparr>tv_sec = 1, tv_nsec = 0\<rparr>
        \<lparr>tv_sec = 1, tv_nsec = 5\<rparr> (Some sample_server) (Some sample_advert)) = []
   \<and> count (ble_batch (the (fst (esphome_api_queue_ble_advert (sample_externals [])
        \<lparr>tv_sec = 1, tv_nsec = 0\<rparr> \<lparr>tv_sec = 1, tv_nsec = 5\<rparr> (Some sample_server)
        (Some sample_advert))))) = 1
   \<and> map pb_address (batch_entries (ble_batch (the (fst (esphome_api_queue_ble_advert
        (sample_externals []) \<lparr>tv_sec = 1, tv_nsec = 0\<rparr> \<lparr>tv_sec = 1, tv_nsec = 5\<rparr>
        (Some sample_server) (Some sample_advert)))))) = [0xAABBCCDDEEFF]"
proof -
  have len: "length (advertisements (ble_batch sample_server)) = ESPHOME_MAX_ADV_BATCH"
    by (simp add: sample_server_def esphome_api_init_def)
  have data: "length (adv_data sample_advert) = ESPHOME_MAX_ADV_DATA"
    by (simp add: sample_advert_def)
  have empty: "count (ble_batch sample_server) = 0"
    by (simp add: sample_server_def esphome_api_init_def)
  have mac: "mac_to_uint64 (adv_address sample_advert) = 0xAABBCCDDEEFF"
    by (simp add: sample_advert_def mac_to_uint64_six)
  from queue_ble_advert_appends_within_capacity [OF len data,
      where env = "sample_externals []" and ?now1.0 = "\<lparr>tv_sec = 1, tv_nsec = 0\<rparr>"
        and ?now2.0 = "\<lparr>tv_sec = 1, tv_nsec = 5\<rparr>"]
  obtain room stored entry where
    room: "room = (if ESPHOME_MAX_ADV_BATCH \<le> count (ble_batch sample_server)
              then fst (flush_ble_batch (sample_externals []) \<lparr>tv_sec = 1, tv_nsec = 0\<rparr> sample_server)
              else sample_server)"
    and stored: "stored = store_ble_advert room sample_advert"
    and entries: "batch_entries (ble_batch stored) = batch_entries (ble_batch room) @ [entry]"
    and address: "pb_address entry = mac_to_uint64 (adv_address sample_advert)"
    and result: "esphome_api_queue_ble_advert (sample_externals []) \<lparr>tv_sec = 1, tv_nsec = 0\<rparr>
        \<lparr>tv_sec = 1, tv_nsec = 5\<rparr> (Some sample_server) (Some sample_advert)
        = (if count (ble_batch stored) < ESPHOME_MAX_ADV_BATCH
           then (Some stored,
                 if ESPHOME_MAX_ADV_BATCH \<le> count (ble_batch sample_server)
                 then snd (flush_ble_batch (sample_externals []) \<lparr>tv_sec = 1, tv_nsec = 0\<rparr> sample_server)
                 else [])
           else (Some (fst (flush_ble_batch (sample_externals []) \<lparr>tv_sec = 1, tv_nsec = 5\<rparr> stored)),
                 (if ESPHOME_MAX_ADV_BATCH \<le> count (ble_batch sample_server)
                  then snd (flush_ble_batch (sample_externals []) \<lparr>tv_sec = 1, tv_nsec = 0\<rparr> sample_server)
                  else [])
                 @ snd (flush_ble_batch (sample_externals []) \<lparr>tv_sec = 1, tv_nsec = 5\<rparr> stored)))"
    by blast
  from room empty have room_eq: "room = sample_server" by simp
  then have count: "count (ble_batch stored) = 1"
    by (simp add: stored empty)
  from entries room_eq empty have "batch_entries (ble_batch stored) = [entry]"
    by (simp add: batch_entries_def)
  with address mac have addr: "map pb_address (batch_entries (ble_batch stored)) = [0xAABBCCDDEEFF]"
    by simp
  from result count empty
  have "esphome_api_queue_ble_advert (sample_externals []) \<lparr>tv_sec = 1, tv_nsec = 0\<rparr>
        \<lparr>tv_sec = 1, tv_nsec = 5\<rparr> (Some sample_server) (Some sample_advert) = (Some stored, [])"
    by simp
  with len data empty count addr show ?thesis
    by simp
qed

text \<open>
  C9. An advertisement whose \<open>data_len\<close> exceeds 62 is still queued: the call returns a
  server, and the entry it wrote (at index 0 after the flush of a full batch, at index
  \<open>count\<close> otherwise) has \<open>data_len\<close> 62, has the first 62 bytes of the advertisement's data
  as its first 62 bytes, the packed address, and the same RSSI and address type as values.
  The advertisement's data array has its 62 bytes and the batch array its 16 entries.
\<close>

theorem queue_ble_advert_truncates_long_data:
  assumes "ESPHOME_MAX_ADV_DATA < adv_data_len adv"
    and "length (adv_data adv) = ESPHOME_MAX_ADV_DATA"
    and "length (advertisements (ble_batch srv)) = ESPHOME_MAX_ADV_BATCH"
  shows "\<exists>srv' events entry.
      esphome_api_queue_ble_advert env now1 now2 (Some srv) (Some adv) = (Some srv', events)
    \<and> entry = advertisements (ble_batch srv')
                ! (if ESPHOME_MAX_ADV_BATCH \<le> count (ble_batch srv) then 0 else count (ble_batch srv))
    \<and> pb_data_len entry = ESPHOME_MAX_ADV_DATA
    \<and> take ESPHOME_MAX_ADV_DATA (pb_data entry) = take ESPHOME_MAX_ADV_DATA (adv_data adv)
    \<and> pb_address entry = mac_to_uint64 (adv_address adv)
    \<and> sint (pb_rssi entry) = sint (adv_rssi adv)
    \<and> unat (pb_address_type entry) = unat (adv_address_type adv)"
proof -
  define room where "room = (if ESPHOME_MAX_ADV_BATCH \<le> count (ble_batch srv)
              then fst (flush_ble_batch env now1 srv) else srv)"
  define slot where "slot = (if ESPHOME_MAX_ADV_BATCH \<le> count (ble_batch srv) then 0 else count (ble_batch srv))"
  define stored where "stored = store_ble_advert room adv"
  define entry where "entry = advertisements (ble_batch stored) ! slot"
  have slot: "count (ble_batch room) = slot"
    by (simp add: room_def slot_def)
  have "slot < ESPHOME_MAX_ADV_BATCH"
    by (simp add: slot_def)
  moreover have "length (advertisements (ble_batch room)) = ESPHOME_MAX_ADV_BATCH"
    using assms(3) by (simp add: room_def)
  ultimately have room: "count (ble_batch room) < length (advertisements (ble_batch room))"
    using slot by simp
  from store_ble_advert_entries [OF room assms(2)] assms(1)
  have entry: "pb_data_len entry = ESPHOME_MAX_ADV_DATA"
    "take ESPHOME_MAX_ADV_DATA (pb_data entry) = take ESPHOME_MAX_ADV_DATA (adv_data adv)"
    "pb_address entry = mac_to_uint64 (adv_address adv)"
    "sint (pb_rssi entry) = sint (adv_rssi adv)"
    "unat (pb_address_type entry) = unat (adv_address_type adv)"
    unfolding entry_def stored_def slot [symmetric]
    by (auto simp add: rssi_sign_extended address_type_zero_extended)
  have kept: "advertisements (ble_batch (the (fst (esphome_api_queue_ble_advert env now1 now2 (Some srv) (Some adv)))))
      = advertisements (ble_batch stored)"
    by (simp add: esphome_api_queue_ble_advert_def Let_def stored_def room_def)
  have some: "esphome_api_queue_ble_advert env now1 now2 (Some srv) (Some adv)
      = (Some (the (fst (esphome_api_queue_ble_advert env now1 now2 (Some srv) (Some adv)))),
         snd (esphome_api_queue_ble_advert env now1 now2 (Some srv) (Some adv)))"
    by (simp add: esphome_api_queue_ble_advert_def Let_def)
  show ?thesis
    apply (rule exI [of _ "the (fst (esphome_api_queue_ble_advert env now1 now2 (Some srv) (Some adv)))"])
    apply (rule exI [of _ "snd (esphome_api_queue_ble_advert env now1 now2 (Some srv) (Some adv))"])
    apply (rule exI [of _ entry])
    apply (intro conjI)
          apply (rule some)
         apply (simp only: kept entry_def slot_def)
        apply (rule entry(1))
       apply (rule entry(2))
      apply (rule entry(3))
     apply (rule entry(4))
    apply (rule entry(5))
    done
qed


theorem queue_ble_advert_truncates_long_data_witness:
  "ESPHOME_MAX_ADV_DATA < adv_data_len sample_advert
   \<and> length (adv_data sample_advert) = ESPHOME_MAX_ADV_DATA
   \<and> length (advertisements (ble_batch sample_server)) = ESPHOME_MAX_ADV_BATCH
   \<and> (\<exists>srv' events.
        esphome_api_queue_ble_advert (sample_externals []) \<lparr>tv_sec = 1, tv_nsec = 0\<rparr>
          \<lparr>tv_sec = 1, tv_nsec = 5\<rparr> (Some sample_server) (Some sample_advert) = (Some srv', events)
      \<and> pb_data_len (advertisements (ble_batch srv') ! 0) = 62
      \<and> take 62 (pb_data (advertisements (ble_batch srv') ! 0)) = replicate 62 7
      \<and> pb_address (advertisements (ble_batch srv') ! 0) = 0xAABBCCDDEEFF
      \<and> sint (pb_rssi (advertisements (ble_batch srv') ! 0)) = - 60
      \<and> unat (pb_address_type (advertisements (ble_batch srv') ! 0)) = 1)"
proof -
  have long: "ESPHOME_MAX_ADV_DATA < adv_data_len sample_advert"
    by (simp add: sample_advert_def)
  have data: "length (adv_data sample_advert) = ESPHOME_MAX_ADV_DATA"
    by (simp add: sample_advert_def)
  have len: "length (advertisements (ble_batch sample_server)) = ESPHOME_MAX_ADV_BATCH"
    by (simp add: sample_server_def esphome_api_init_def)
  have empty: "count (ble_batch sample_server) = 0"
    by (simp add: sample_server_def esphome_api_init_def)
  have mac: "mac_to_uint64 (adv_address sample_advert) = 0xAABBCCDDEEFF"
    by (simp add: sample_advert_def mac_to_uint64_six)
  have rssi: "sint (adv_rssi sample_advert) = - 60"
    by (simp add: sample_advert_def)
  have atype: "unat (adv_address_type sample_advert) = 1"
    by (simp add: sample_advert_def)
  have bytes: "take ESPHOME_MAX_ADV_DATA (adv_data sample_advert) = replicate 62 7"
    by (simp add: sample_advert_def)
  from queue_ble_advert_truncates_long_data [OF long data len,
      where env = "sample_externals []" and ?now1.0 = "\<lparr>tv_sec = 1, tv_nsec = 0\<rparr>"
        and ?now2.0 = "\<lparr>tv_sec = 1, tv_nsec = 5\<rparr>"]
  have "\<exists>srv' events.
        esphome_api_queue_ble_advert (sample_externals []) \<lparr>tv_sec = 1, tv_nsec = 0\<rparr>
          \<lparr>tv_sec = 1, tv_nsec = 5\<rparr> (Some sample_server) (Some sample_advert) = (Some srv', events)
      \<and> pb_data_len (advertisements (ble_batch srv') ! 0) = 62
      \<and> take 62 (pb_data (advertisements (ble_batch srv') ! 0)) = replicate 62 7
      \<and> pb_address (advertisements (ble_batch srv') ! 0) = 0xAABBCCDDEEFF
      \<and> sint (pb_rssi (advertisements (ble_batch srv') ! 0)) = - 60
      \<and> unat (pb_address_type (advertisements (ble_batch srv') ! 0)) = 1"
    unfolding empty mac rssi atype bytes by auto
  with long data len show ?thesis
    by blast
qed

section \<open>Send failures\<close>

lemma send_message_result:
  "fst (send_message env client msg_type payload)
     = (let frame = esphome_frame_message SEND_BUFFER_SIZE msg_type payload;
            sent = sys_send env (fd client) frame
        in if frame = [] \<or> sent < 0 \<or> nat sent \<noteq> length frame then - 1 else 0)"
  by (simp add: send_message_def Let_def)

lemma dispatch_message_fd [simp]:
  "fd (fst (dispatch_message env cfg client msg_type payload)) = fd client"
  by (simp add: dispatch_message_def handler_defs Let_def split: option.split)

text \<open>
  C5, as the code has it. A broadcast does not stop at a failed send: the flush of an
  encoded batch calls \<^verbatim>\<open>send\<close> once for every open, subscribed client, whatever the calls
  return. \<open>send_message\<close> answers -1 when \<^verbatim>\<open>send\<close> failed or sent fewer bytes than the
  frame has, and no caller looks at that answer. So the send path leaves the failing
  session as it was: after the flush every client slot is what it was before, with its
  descriptor and its subscription, and a handler that replies through \<open>send_message\<close>
  keeps the descriptor of its client and returns the same client whatever \<^verbatim>\<open>send\<close>
  returned.
\<close>

theorem send_failure_leaves_session_open:
  assumes "length (clients server) = ESPHOME_MAX_CLIENTS"
    and "count (ble_batch server) \<noteq> 0"
    and "esphome_encode_ble_advertisements env ESPHOME_MAX_MESSAGE_SIZE (ble_batch server) = encoded"
    and "encoded \<noteq> []" and "length encoded \<le> ESPHOME_MAX_MESSAGE_SIZE"
    and "frame = esphome_frame_message SEND_BUFFER_SIZE
                  ESPHOME_MSG_BLUETOOTH_LE_RAW_ADVERTISEMENTS_RESPONSE encoded"
  shows "snd (flush_ble_batch env now server)
        = map (\<lambda>c. SendCall (fd c) frame (sys_send env (fd c) frame))
            (filter (\<lambda>c. 0 \<le> fd c \<and> subscribed_ble c) (clients server))
    \<and> clients (fst (flush_ble_batch env now server)) = clients server
    \<and> (\<forall>c \<in> set (clients server).
          fst (send_message env c ESPHOME_MSG_BLUETOOTH_LE_RAW_ADVERTISEMENTS_RESPONSE encoded)
            = (if sys_send env (fd c) frame < 0 \<or> nat (sys_send env (fd c) frame) \<noteq> length frame
               then - 1 else 0))
    \<and> fd (fst (dispatch_message env cfg client msg_type payload)) = fd client
    \<and> fst (dispatch_message (env\<lparr>sys_send := other_send\<rparr>) cfg client msg_type payload)
        = fst (dispatch_message env cfg client msg_type payload)"
proof -
  have reply: "fst (dispatch_message (env\<lparr>sys_send := other_send\<rparr>) cfg client msg_type payload)
        = fst (dispatch_message env cfg client msg_type payload)"
    by (simp add: dispatch_message_def handler_defs Let_def split: option.split)
  from assms(4,5,6) have "frame \<noteq> []"
    by (simp add: esphome_frame_message_fits)
  then have rc: "fst (send_message env c ESPHOME_MSG_BLUETOOTH_LE_RAW_ADVERTISEMENTS_RESPONSE encoded)
            = (if sys_send env (fd c) frame < 0 \<or> nat (sys_send env (fd c) frame) \<noteq> length frame
               then - 1 else 0)" for c
    by (simp add: send_message_result Let_def assms(6))
  from flush_ble_batch_encoded(2) [OF assms, where now = now]
  have "snd (flush_ble_batch env now server)
        = map (\<lambda>c. SendCall (fd c) frame (sys_send env (fd c) frame))
            (filter (\<lambda>c. 0 \<le> fd c \<and> subscribed_ble c) (clients server))"
    by simp
  with rc reply show ?thesis by simp
qed

text \<open>
  The claim C5 as stated fails: with \<^verbatim>\<open>send\<close> failing on descriptor 5, the flush still
  sends to descriptor 6, and the client on descriptor 5 is afterwards still open and
  subscribed.
\<close>

theorem send_failure_closes_session_counterexample:
  "snd (flush_ble_batch (sample_externals [5]) \<lparr>tv_sec = 9, tv_nsec = 0\<rparr>
        (sample_server\<lparr>clients := [client_init\<lparr>fd := 5, subscribed_ble := True\<rparr>,
                                    client_init\<lparr>fd := 6, subscribed_ble := True\<rparr>],
                      ble_batch := (ble_batch sample_server)\<lparr>count := 1\<rparr>\<rparr>))
     = [SendCall 5 [0, 3, 93, 0x0A, 0] (- 1), SendCall 6 [0, 3, 93, 0x0A, 0] 5]
   \<and> fd (clients (fst (flush_ble_batch (sample_externals [5]) \<lparr>tv_sec = 9, tv_nsec = 0\<rparr>
        (sample_server\<lparr>clients := [client_init\<lparr>fd := 5, subscribed_ble := True\<rparr>,
                                    client_init\<lparr>fd := 6, subscribed_ble := True\<rparr>],
                      ble_batch := (ble_batch sample_server)\<lparr>count := 1\<rparr>\<rparr>))) ! 0) = 5
   \<and> subscribed_ble (clients (fst (flush_ble_batch (sample_externals [5]) \<lparr>tv_sec = 9, tv_nsec = 0\<rparr>
        (sample_server\<lparr>clients := [client_init\<lparr>fd := 5, subscribed_ble := True\<rparr>,
                                    client_init\<lparr>fd := 6, subscribed_ble := True\<rparr>],
                      ble_batch := (ble_batch sample_server)\<lparr>count := 1\<rparr>\<rparr>))) ! 0)"
  by (simp add: flush_ble_batch_def sample_externals_def sample_server_def esphome_api_init_def
      batch_entries_def send_message_def sample_frame client_init_def upt_0_2 Let_def)

theorem send_failure_leaves_session_open_witness:
  "length (clients (sample_server\<lparr>clients := [client_init\<lparr>fd := 5, subscribed_ble := True\<rparr>,
                                    client_init\<lparr>fd := 6, subscribed_ble := True\<rparr>],
                      ble_batch := (ble_batch sample_server)\<lparr>count := 1\<rparr>\<rparr>)) = ESPHOME_MAX_CLIENTS
   \<and> snd (flush_ble_batch (sample_externals [5]) \<lparr>tv_sec = 9, tv_nsec = 0\<rparr>
        (sample_server\<lparr>clients := [client_init\<lparr>fd := 5, subscribed_ble := True\<rparr>,
                                    client_init\<lparr>fd := 6, subscribed_ble := True\<rparr>],
                      ble_batch := (ble_batch sample_server)\<lparr>count := 1\<rparr>\<rparr>))
        = [SendCall 5 [0, 3, 93, 0x0A, 0] (- 1), SendCall 6 [0, 3, 93, 0x0A, 0] 5]
   \<and> clients (fst (flush_ble_batch (sample_externals [5]) \<lparr>tv_sec = 9, tv_nsec = 0\<rparr>
        (sample_server\<lparr>clients := [client_init\<lparr>fd := 5, subscribed_ble := True\<rparr>,
                                    client_init\<lparr>fd := 6, subscribed_ble := True\<rparr>],
                      ble_batch := (ble_batch sample_server)\<lparr>count := 1\<rparr>\<rparr>)))
        = [client_init\<lparr>fd := 5, subscribed_ble := True\<rparr>,
           client_init\<lparr>fd := 6, subscribed_ble := True\<rparr>]"
proof -
  define S where "S = sample_server\<lparr>clients := [client_init\<lparr>fd := 5, subscribed_ble := True\<rparr>,
                                    client_init\<lparr>fd := 6, subscribed_ble := True\<rparr>],
                      ble_batch := (ble_batch sample_server)\<lparr>count := 1\<rparr>\<rparr>"
  have len: "length (clients S) = ESPHOME_MAX_CLIENTS"
    by (simp add: S_def)
  have nonempty: "count (ble_batch S) \<noteq> 0"
    by (simp add: S_def)
  have enc: "esphome_encode_ble_advertisements (sample_externals [5]) ESPHOME_MAX_MESSAGE_SIZE
        (ble_batch S) = [0x0A, 0]"
    by (simp add: S_def sample_externals_def sample_server_def esphome_api_init_def batch_entries_def)
  note open_after = send_failure_leaves_session_open [OF len nonempty enc _ _ sample_frame [symmetric],
      where now = "\<lparr>tv_sec = 9, tv_nsec = 0\<rparr>"
        and cfg = sample_config and client = client_init and msg_type = 7 and payload = "[]"]
  have "snd (flush_ble_batch (sample_externals [5]) \<lparr>tv_sec = 9, tv_nsec = 0\<rparr> S)
        = [SendCall 5 [0, 3, 93, 0x0A, 0] (- 1), SendCall 6 [0, 3, 93, 0x0A, 0] 5]"
    using open_after by (simp add: S_def client_init_def sample_externals_def)
  moreover have "clients (fst (flush_ble_batch (sample_externals [5]) \<lparr>tv_sec = 9, tv_nsec = 0\<rparr> S))
        = clients S"
    using open_after by simp
  ultimately show ?thesis
    using len unfolding S_def by simp
qed


section \<open>Accepting connections\<close>

lemma find_free_slot_full:
  assumes "\<forall>j. i \<le> j \<and> j < ESPHOME_MAX_CLIENTS \<longrightarrow> 0 \<le> fd (cs ! j)"
  shows "find_free_slot cs client_fd i = (cs, - 1)"
  using assms
proof (induction cs client_fd i rule: find_free_slot.induct)
  case (1 cs client_fd i)
  show ?case
  proof (cases "i < ESPHOME_MAX_CLIENTS")
    case True
    with "1.prems" have occupied: "0 \<le> fd (cs ! i)" by simp
    with True have "find_free_slot cs client_fd i = find_free_slot cs client_fd (i + 1)"
      by (simp add: find_free_slot.simps [of cs client_fd i])
    also have "\<dots> = (cs, - 1)"
      using "1.IH" True occupied "1.prems" by simp
    finally show ?thesis .
  next
    case False
    then show ?thesis
      by (simp add: find_free_slot.simps [of cs client_fd i])
  qed
qed

lemma find_free_slot_first:
  assumes "i \<le> slot" and "slot < ESPHOME_MAX_CLIENTS" and "fd (cs ! slot) < 0"
    and "\<forall>j. i \<le> j \<and> j < slot \<longrightarrow> 0 \<le> fd (cs ! j)"
  shows "find_free_slot cs client_fd i = (cs[slot := (cs ! slot)\<lparr>fd := client_fd\<rparr>], int slot)"
  using assms
proof (induction cs client_fd i rule: find_free_slot.induct)
  case (1 cs client_fd i)
  show ?case
  proof (cases "i = slot")
    case True
    with "1.prems" show ?thesis
      by (simp add: find_free_slot.simps [of cs client_fd slot])
  next
    case False
    with "1.prems" have "i < slot" by simp
    with "1.prems" have occupied: "0 \<le> fd (cs ! i)" and "i < ESPHOME_MAX_CLIENTS" by auto
    then have "find_free_slot cs client_fd i = find_free_slot cs client_fd (i + 1)"
      by (simp add: find_free_slot.simps [of cs client_fd i])
    also have "\<dots> = (cs[slot := (cs ! slot)\<lparr>fd := client_fd\<rparr>], int slot)"
      using "1.IH" \<open>i < ESPHOME_MAX_CLIENTS\<close> occupied "1.prems" \<open>i < slot\<close> by simp
    finally show ?thesis .
  qed
qed

text \<open>
  C8. One round of the accept loop on a server with its two slots, for a descriptor that
  \<^verbatim>\<open>accept\<close> returned. When both slots are occupied (\<open>fd \<ge> 0\<close>) the new descriptor is
  closed, the server is left exactly as it was and nothing else happens. When a slot is
  free, the search gives the new descriptor to one slot, the first free one, and changes no
  other slot; with the client thread started, the server differs from the old one in that
  slot only, which now holds the descriptor and has \<open>thread_running\<close> set.
\<close>

theorem listen_thread_accept_capacity:
  assumes "length (clients server) = ESPHOME_MAX_CLIENTS" and "0 \<le> client_fd"
  shows "((\<forall>i<ESPHOME_MAX_CLIENTS. 0 \<le> fd (clients server ! i))
          \<longrightarrow> listen_thread_accept thread_ok server client_fd = (server, [CloseCall client_fd]))
    \<and> ((\<exists>i<ESPHOME_MAX_CLIENTS. fd (clients server ! i) < 0)
          \<longrightarrow> (\<exists>slot. slot < ESPHOME_MAX_CLIENTS \<and>
                fd (clients server ! slot) < 0
              \<and> (\<forall>j. j < slot \<longrightarrow> 0 \<le> fd (clients server ! j))
              \<and> find_free_slot (clients server) client_fd 0
                  = ((clients server)[slot := (clients server ! slot)\<lparr>fd := client_fd\<rparr>], int slot)
              \<and> listen_thread_accept True server client_fd
                  = (server\<lparr>clients := (clients server)
                        [slot := (clients server ! slot)\<lparr>fd := client_fd, thread_running := True\<rparr>]\<rparr>,
                     [ThreadCreate slot])))"
proof (intro conjI impI)
  assume "\<forall>i<ESPHOME_MAX_CLIENTS. 0 \<le> fd (clients server ! i)"
  then have "find_free_slot (clients server) client_fd 0 = (clients server, - 1)"
    by (intro find_free_slot_full) simp
  with assms(2) show "listen_thread_accept thread_ok server client_fd = (server, [CloseCall client_fd])"
    by (simp add: listen_thread_accept_def Let_def)
next
  assume "\<exists>i<ESPHOME_MAX_CLIENTS. fd (clients server ! i) < 0"
  then obtain i where i: "i < ESPHOME_MAX_CLIENTS" "fd (clients server ! i) < 0"
    by blast
  define slot where "slot = (LEAST k. fd (clients server ! k) < 0)"
  have free: "fd (clients server ! slot) < 0"
    unfolding slot_def using i(2) by (rule LeastI)
  have "slot \<le> i"
    unfolding slot_def using i(2) by (rule Least_le)
  with i(1) have bound: "slot < ESPHOME_MAX_CLIENTS"
    by simp
  have first: "\<forall>j. j < slot \<longrightarrow> 0 \<le> fd (clients server ! j)"
    unfolding slot_def using not_less_Least [of _ "\<lambda>k. fd (clients server ! k) < 0"]
    by (auto simp add: not_less)
  note slot = bound free first
  from slot have found: "find_free_slot (clients server) client_fd 0
      = ((clients server)[slot := (clients server ! slot)\<lparr>fd := client_fd\<rparr>], int slot)"
    by (intro find_free_slot_first) simp_all
  with assms slot have "listen_thread_accept True server client_fd
      = (server\<lparr>clients := (clients server)
            [slot := (clients server ! slot)\<lparr>fd := client_fd, thread_running := True\<rparr>]\<rparr>,
         [ThreadCreate slot])"
    by (simp add: listen_thread_accept_def Let_def)
  with slot found show "\<exists>slot. slot < ESPHOME_MAX_CLIENTS \<and>
                fd (clients server ! slot) < 0
              \<and> (\<forall>j. j < slot \<longrightarrow> 0 \<le> fd (clients server ! j))
              \<and> find_free_slot (clients server) client_fd 0
                  = ((clients server)[slot := (clients server ! slot)\<lparr>fd := client_fd\<rparr>], int slot)
              \<and> listen_thread_accept True server client_fd
                  = (server\<lparr>clients := (clients server)
                        [slot := (clients server ! slot)\<lparr>fd := client_fd, thread_running := True\<rparr>]\<rparr>,
                     [ThreadCreate slot])"
    by blast
qed

theorem listen_thread_accept_capacity_witness:
  "length (clients sample_server) = ESPHOME_MAX_CLIENTS
   \<and> 0 \<le> fd (clients sample_server ! 0) \<and> 0 \<le> fd (clients sample_server ! 1)
   \<and> listen_thread_accept True sample_server 7 = (sample_server, [CloseCall 7])
   \<and> listen_thread_accept True
        (sample_server\<lparr>clients := [client_init\<lparr>fd := 5\<rparr>, client_init]\<rparr>) 7
       = (sample_server\<lparr>clients := [client_init\<lparr>fd := 5\<rparr>,
                                      client_init\<lparr>fd := 7, thread_running := True\<rparr>]\<rparr>,
          [ThreadCreate 1])"
proof -
  have len: "length (clients sample_server) = ESPHOME_MAX_CLIENTS"
    by (simp add: sample_server_def)
  have occupied: "0 \<le> fd (clients sample_server ! 0)" "0 \<le> fd (clients sample_server ! 1)"
    by (simp_all add: sample_server_def client_init_def)
  have "i = 0 \<or> i = 1" if "i < ESPHOME_MAX_CLIENTS" for i :: nat
    using that by auto
  with occupied have full: "\<forall>i<ESPHOME_MAX_CLIENTS. 0 \<le> fd (clients sample_server ! i)"
    by auto
  have fd: "(0 :: int) \<le> 7"
    by simp
  from listen_thread_accept_capacity [OF len fd, where thread_ok = True] full
  have rejected: "listen_thread_accept True sample_server 7 = (sample_server, [CloseCall 7])"
    by blast
  have "find_free_slot [client_init\<lparr>fd := 5\<rparr>, client_init] 7 0
      = ([client_init\<lparr>fd := 5\<rparr>, client_init\<lparr>fd := 7\<rparr>], 1)"
    by (simp add: find_free_slot.simps [of _ _ 0] find_free_slot.simps [of _ _ "Suc 0"]
        client_init_def)
  then have "listen_thread_accept True
        (sample_server\<lparr>clients := [client_init\<lparr>fd := 5\<rparr>, client_init]\<rparr>) 7
       = (sample_server\<lparr>clients := [client_init\<lparr>fd := 5\<rparr>,
                                      client_init\<lparr>fd := 7, thread_running := True\<rparr>]\<rparr>,
          [ThreadCreate 1])"
    by (simp add: listen_thread_accept_def Let_def)
  with len occupied rejected show ?thesis
    by blast
qed


section \<open>Varints and frame headers\<close>

lemma unat_low_byte: "v < 128 \<Longrightarrow> unat (of_nat v :: byte) = v"
  by (simp add: unat_of_nat)

lemma unat_continuation_byte: "unat (of_nat (v mod 128 + 128) :: byte) = v mod 128 + 128"
proof -
  have "v mod 128 < 128" by simp
  then have "v mod 128 + 128 < 256" by linarith
  then show ?thesis by (simp only: unat_of_nat len_of_numeral_defs) simp
qed

lemma unat_continuation_byte' [simp]:
  "unat (of_nat (v mod 128) + 128 :: byte) = v mod 128 + 128"
  using unat_continuation_byte [of v] by simp

lemma pb_decode_varint_from_encode:
  "i + length (pb_encode_varint v) \<le> 10 \<Longrightarrow>
   pb_decode_varint_from i acc (pb_encode_varint v @ rest)
     = Some ((acc + v * 2 ^ (7 * i)) mod 2 ^ 64, i + length (pb_encode_varint v))"
proof (induction v arbitrary: i acc rule: pb_encode_varint.induct)
  case (1 v)
  show ?case
  proof (cases "v < 128")
    case True
    with "1.prems" show ?thesis
      by (simp add: pb_encode_varint.simps [of v] unat_low_byte)
  next
    case False
    from False "1.prems" have len: "Suc i + length (pb_encode_varint (v div 128)) \<le> 10"
      by (simp add: pb_encode_varint.simps [of v])
    have split: "v mod 128 * 2 ^ (7 * i) + v div 128 * 2 ^ (7 * Suc i) = v * 2 ^ (7 * i)"
    proof -
      define X :: nat where "X = 2 ^ (7 * i)"
      have "(2 :: nat) ^ (7 * Suc i) = 2 ^ 7 * 2 ^ (7 * i)"
        by (simp only: mult_Suc_right power_add)
      then have step: "(2 :: nat) ^ (7 * Suc i) = 128 * X"
        by (simp add: X_def)
      have "v mod 128 * X + v div 128 * (128 * X) = (v mod 128 + v div 128 * 128) * X"
        by (simp only: distrib_right mult.assoc)
      also have "v mod 128 + v div 128 * 128 = v"
        by simp
      finally show ?thesis
        unfolding step unfolding X_def .
    qed
    have "((acc + v mod 128 * 2 ^ (7 * i)) mod 2 ^ 64 + v div 128 * 2 ^ (7 * Suc i)) mod 2 ^ 64
        = (acc + (v mod 128 * 2 ^ (7 * i) + v div 128 * 2 ^ (7 * Suc i))) mod 2 ^ 64"
      by (simp add: mod_add_left_eq add.assoc)
    then have acc: "((acc + v mod 128 * 2 ^ (7 * i)) mod 2 ^ 64 + v div 128 * 2 ^ (7 * Suc i)) mod 2 ^ 64
        = (acc + v * 2 ^ (7 * i)) mod 2 ^ 64"
      by (simp only: split)
    from "1.IH" [OF False len, of "(acc + v mod 128 * 2 ^ (7 * i)) mod 2 ^ 64"]
    have "pb_decode_varint_from (Suc i) ((acc + v mod 128 * 2 ^ (7 * i)) mod 2 ^ 64)
            (pb_encode_varint (v div 128) @ rest)
          = Some ((acc + v * 2 ^ (7 * i)) mod 2 ^ 64, Suc i + length (pb_encode_varint (v div 128)))"
      by (simp only: acc)
    moreover from len have "i < 10" by simp
    ultimately show ?thesis
      using False
      by (simp add: pb_encode_varint.simps [of v] unat_continuation_byte Let_def)
  qed
qed

lemma pb_decode_varint_encode:
  assumes "v < 2 ^ 64"
  shows "pb_decode_varint (pb_encode_varint v @ rest) = Some (v, length (pb_encode_varint v))"
proof -
  from assms have "v < 128 ^ 10" by simp
  then have "length (pb_encode_varint v) \<le> 10"
    by (rule pb_encode_varint_length) simp
  then show ?thesis
    using pb_decode_varint_from_encode [of 0 v 0 rest] assms
    by (simp add: pb_decode_varint_def)
qed

lemma pb_decode_varint_from_prefix:
  "k < length (pb_encode_varint v) \<Longrightarrow>
   pb_decode_varint_from i acc (take k (pb_encode_varint v)) = None"
proof (induction v arbitrary: i acc k rule: pb_encode_varint.induct)
  case (1 v)
  show ?case
  proof (cases "v < 128")
    case True
    with "1.prems" show ?thesis
      by (simp add: pb_encode_varint.simps [of v])
  next
    case False
    show ?thesis
    proof (cases k)
      case 0
      then show ?thesis by simp
    next
      case (Suc k')
      with False "1.prems" have "k' < length (pb_encode_varint (v div 128))"
        by (simp add: pb_encode_varint.simps [of v])
      from "1.IH" [OF False this]
      show ?thesis
        using False Suc
        by (simp add: pb_encode_varint.simps [of v] unat_continuation_byte Let_def)
    qed
  qed
qed

lemma pb_decode_varint_prefix:
  "k < length (pb_encode_varint v) \<Longrightarrow> pb_decode_varint (take k (pb_encode_varint v)) = None"
  by (simp add: pb_decode_varint_def pb_decode_varint_from_prefix)


lemma pb_decode_varint_from_consumed:
  "pb_decode_varint_from i acc bs = Some (v, n) \<Longrightarrow> i < n \<and> n \<le> i + length bs"
  by (induction i acc bs rule: pb_decode_varint_from.induct)
     (fastforce simp add: Let_def split: if_splits)+


lemma esphome_decode_frame_header_length:
  assumes "esphome_decode_frame_header buf = Some (header_len, msg_len, msg_type)"
  shows "0 < header_len \<and> header_len \<le> length buf"
proof -
  from assms obtain rest where buf: "buf = 0 # rest"
    by (cases buf) (auto simp add: esphome_decode_frame_header_def split: if_splits)
  from assms buf obtain declared n1 where first: "pb_decode_varint rest = Some (declared, n1)"
    by (auto simp add: esphome_decode_frame_header_def split: option.splits)
  from assms buf first obtain ty n2 where second: "pb_decode_varint (drop n1 rest) = Some (ty, n2)"
    by (auto simp add: esphome_decode_frame_header_def split: option.splits)
  from first have n1: "n1 \<le> length rest"
    using pb_decode_varint_from_consumed [of 0 0 rest declared n1]
    by (simp add: pb_decode_varint_def)
  from second have n2: "n2 \<le> length rest - n1"
    using pb_decode_varint_from_consumed [of 0 0 "drop n1 rest" ty n2]
    by (simp add: pb_decode_varint_def)
  from assms have "header_len = 1 + n1 + n2"
    by (auto simp add: esphome_decode_frame_header_def buf first second split: if_splits)
  with n1 n2 show ?thesis
    by (simp add: buf)
qed


section \<open>Oversized frames\<close>

lemma handle_client_data_waits:
  assumes "esphome_decode_frame_header (recv_buffer client) = Some (header_len, msg_len, msg_type)"
    and "recv_pos client < unat (of_nat header_len + msg_len :: 32 word)"
  shows "handle_client_data env cfg client = Inr (client, [])"
  using assms by (simp add: handle_client_data.simps [of env cfg client] Let_def)

lemma handle_client_data_no_header:
  assumes "esphome_decode_frame_header (recv_buffer client) = None"
  shows "handle_client_data env cfg client = Inr (client, [])"
  using assms by (simp add: handle_client_data.simps [of env cfg client])

lemma client_thread_cleanup_buffer [simp]:
  "client_thread_cleanup (client\<lparr>recv_buffer := buf\<rparr>) = client_thread_cleanup client"
  by (simp add: client_thread_cleanup_def client_close_def Let_def)










lemma dispatched_Nil_CloseCall [simp]: "dispatched [CloseCall d] = []"
  by simp






section \<open>Frame reassembly\<close>

lemma header_decode_full:
  assumes "T < 2 ^ 64" and "L < 2 ^ 64" and "length (pb_encode_varint T) \<le> L"
  shows "esphome_decode_frame_header (0 # pb_encode_varint L @ pb_encode_varint T @ rest)
     = Some (1 + length (pb_encode_varint L) + length (pb_encode_varint T),
             of_nat (L - length (pb_encode_varint T)), of_nat T)"
proof -
  have first: "pb_decode_varint (pb_encode_varint L @ pb_encode_varint T @ rest)
      = Some (L, length (pb_encode_varint L))"
    using assms(2) by (rule pb_decode_varint_encode)
  have second: "pb_decode_varint (pb_encode_varint T @ rest) = Some (T, length (pb_encode_varint T))"
    using assms(1) by (rule pb_decode_varint_encode)
  from assms(3) show ?thesis
    by (simp add: esphome_decode_frame_header_def first second)
qed

lemma header_decode_prefix:
  assumes "L < 2 ^ 64"
    and "k < 1 + length (pb_encode_varint L) + length (pb_encode_varint T)"
  shows "esphome_decode_frame_header (take k (0 # pb_encode_varint L @ pb_encode_varint T @ rest)) = None"
proof (cases k)
  case 0
  then show ?thesis by (simp add: esphome_decode_frame_header_def)
next
  case (Suc k')
  show ?thesis
  proof (cases "k' < length (pb_encode_varint L)")
    case True
    then have "pb_decode_varint (take k' (pb_encode_varint L @ pb_encode_varint T @ rest)) = None"
      by (simp add: pb_decode_varint_prefix)
    then show ?thesis
      by (simp add: Suc esphome_decode_frame_header_def)
  next
    case False
    define m where "m = k' - length (pb_encode_varint L)"
    from False assms(2) Suc have m: "m < length (pb_encode_varint T)"
      by (simp add: m_def)
    from False have cut: "take k' (pb_encode_varint L @ pb_encode_varint T @ rest)
        = pb_encode_varint L @ take m (pb_encode_varint T)"
      using m by (simp add: m_def)
    have first: "pb_decode_varint (pb_encode_varint L @ take m (pb_encode_varint T))
        = Some (L, length (pb_encode_varint L))"
      using assms(1) by (rule pb_decode_varint_encode)
    have second: "pb_decode_varint (take m (pb_encode_varint T)) = None"
      using m by (rule pb_decode_varint_prefix)
    show ?thesis
      by (simp add: Suc esphome_decode_frame_header_def cut first second del: take_append)
  qed
qed

lemma frame_layout:
  assumes "esphome_frame_message RECV_BUFFER_SIZE msg_type payload = frame" and "frame \<noteq> []"
  shows "frame = 0 # pb_encode_varint (length (pb_encode_varint (unat msg_type)) + length payload)
                   @ pb_encode_varint (unat msg_type) @ payload"
    and "length frame \<le> RECV_BUFFER_SIZE"
  using assms by (auto simp add: esphome_frame_message_def Let_def split: if_splits)

lemma unat_total_len:
  assumes "header_len + payload_len \<le> RECV_BUFFER_SIZE"
  shows "unat (of_nat payload_len :: 32 word) = payload_len"
    and "unat (of_nat header_len + of_nat payload_len :: 32 word) = header_len + payload_len"
proof -
  from assms have "payload_len < 2 ^ 32" "header_len + payload_len < 2 ^ 32" by simp_all
  then show "unat (of_nat payload_len :: 32 word) = payload_len"
    and "unat (of_nat header_len + of_nat payload_len :: 32 word) = header_len + payload_len"
    by (simp_all add: unat_of_nat flip: of_nat_add)
qed

lemma dispatched_send_message [simp]:
  "dispatched (snd (send_message env client msg_type payload)) = []"
  by (simp add: send_message_def Let_def)

lemma dispatched_dispatch_message [simp]:
  "dispatched (snd (dispatch_message env cfg client msg_type payload)) = []"
  by (simp add: dispatch_message_def handler_defs Let_def split: option.split)

lemma take_past_prefix: "length xs \<le> k \<Longrightarrow> take k (xs @ ys) = xs @ take (k - length xs) ys"
  by simp

lemma handle_partial_frame:
  assumes layout: "frame = 0 # pb_encode_varint (length (pb_encode_varint (unat (msg_type :: 16 word)))
                     + length payload)
                   @ pb_encode_varint (unat msg_type) @ payload"
    and len: "length frame \<le> RECV_BUFFER_SIZE"
    and buf: "recv_buffer client @ rest = frame" and rest: "rest \<noteq> []"
  shows "handle_client_data env cfg client = Inr (client, [])"
proof -
  define T where "T = unat msg_type"
  define L where "L = length (pb_encode_varint T) + length payload"
  define hl where "hl = 1 + length (pb_encode_varint L) + length (pb_encode_varint T)"
  define k where "k = recv_pos client"
  have frame: "frame = 0 # pb_encode_varint L @ pb_encode_varint T @ payload"
    by (simp add: layout L_def T_def)
  have total: "length frame = hl + length payload"
    by (simp add: frame hl_def)
  have "unat msg_type < 2 ^ 16"
    using unsigned_less [of msg_type] by simp
  then have T: "T < 2 ^ 64"
    by (simp add: T_def)
  from len total have L: "L < 2 ^ 64"
    by (simp add: L_def hl_def)
  from buf have prefix: "recv_buffer client = take k frame"
    by (auto simp add: k_def)
  from buf rest have k: "k < length frame"
    by (auto simp add: k_def)
  show ?thesis
  proof (cases "k < hl")
    case True
    with L have "esphome_decode_frame_header (take k frame) = None"
      unfolding frame hl_def by (intro header_decode_prefix) simp_all
    then show ?thesis
      by (simp add: handle_client_data_no_header prefix)
  next
    case False
    then have "length (0 # pb_encode_varint L @ pb_encode_varint T) \<le> k"
      by (simp add: hl_def)
    from take_past_prefix [OF this, of payload]
    have "take k frame = 0 # pb_encode_varint L @ pb_encode_varint T @ take (k - hl) payload"
      by (simp add: frame hl_def)
    moreover have "esphome_decode_frame_header
          (0 # pb_encode_varint L @ pb_encode_varint T @ take (k - hl) payload)
        = Some (hl, of_nat (L - length (pb_encode_varint T)), of_nat T)"
      unfolding hl_def using T L by (intro header_decode_full) (simp_all add: L_def)
    ultimately have header: "esphome_decode_frame_header (recv_buffer client)
        = Some (hl, of_nat (length payload), of_nat T)"
      by (simp add: prefix L_def)
    from len total have "unat (of_nat hl + of_nat (length payload) :: 32 word) = hl + length payload"
      by (intro unat_total_len) simp
    with k total have "recv_pos client < unat (of_nat hl + of_nat (length payload) :: 32 word)"
      by (simp add: k_def)
    with header show ?thesis
      by (rule handle_client_data_waits)
  qed
qed

lemma handle_complete_frame:
  assumes layout: "frame = 0 # pb_encode_varint (length (pb_encode_varint (unat msg_type)) + length payload)
                   @ pb_encode_varint (unat msg_type) @ payload"
    and len: "length frame \<le> RECV_BUFFER_SIZE"
    and buf: "recv_buffer client = frame"
  shows "handle_client_data env cfg client
     = Inr ((fst (dispatch_message env cfg client msg_type payload))\<lparr>recv_buffer := []\<rparr>,
            Dispatched msg_type payload # snd (dispatch_message env cfg client msg_type payload))"
proof -
  define T where "T = unat msg_type"
  define L where "L = length (pb_encode_varint T) + length payload"
  define hl where "hl = 1 + length (pb_encode_varint L) + length (pb_encode_varint T)"
  have frame: "frame = 0 # pb_encode_varint L @ pb_encode_varint T @ payload"
    by (simp add: layout L_def T_def)
  have total: "length frame = hl + length payload"
    by (simp add: frame hl_def)
  have "unat msg_type < 2 ^ 16"
    using unsigned_less [of msg_type] by simp
  then have T: "T < 2 ^ 64"
    by (simp add: T_def)
  from len total have L: "L < 2 ^ 64"
    by (simp add: L_def hl_def)
  have "esphome_decode_frame_header (0 # pb_encode_varint L @ pb_encode_varint T @ payload)
        = Some (hl, of_nat (L - length (pb_encode_varint T)), of_nat T)"
    unfolding hl_def using T L by (intro header_decode_full) (simp_all add: L_def)
  then have header: "esphome_decode_frame_header frame
        = Some (hl, of_nat (length payload), msg_type)"
    by (simp add: frame L_def T_def)
  from len total have sizes: "unat (of_nat (length payload) :: 32 word) = length payload"
    "unat (of_nat hl + of_nat (length payload) :: 32 word) = hl + length payload"
    by (simp_all add: unat_total_len)
  have pos: "0 < hl"
    by (simp add: hl_def)
  have payload: "take (length payload) (drop hl frame) = payload"
    by (simp add: frame hl_def)
  define client1 where "client1 = fst (dispatch_message env cfg client msg_type payload)"
  have finished: "handle_client_data env cfg (client1\<lparr>recv_buffer := []\<rparr>)
      = Inr (client1\<lparr>recv_buffer := []\<rparr>, [])"
    by (simp add: handle_client_data.simps [of env cfg "client1\<lparr>recv_buffer := []\<rparr>"])
  have kept: "recv_buffer client1 = frame"
    by (simp add: client1_def buf)
  have consumed: "drop (hl + length payload) frame = []"
    using total by simp
  show ?thesis
    using pos total
    by (simp add: handle_client_data.simps [of env cfg client] buf header sizes payload Let_def
        client1_def [symmetric] kept consumed finished)
qed

lemma concat_nonempty: "chunks \<noteq> [] \<Longrightarrow> [] \<notin> set chunks \<Longrightarrow> concat chunks \<noteq> []"
  by (cases chunks) auto

lemma loop_accumulates:
  assumes layout: "frame = 0 # pb_encode_varint (length (pb_encode_varint (unat (msg_type :: 16 word)))
                     + length payload)
                   @ pb_encode_varint (unat msg_type) @ payload"
    and len: "length frame \<le> RECV_BUFFER_SIZE"
    and buf: "recv_buffer client @ concat chunks @ rest = frame" and rest: "rest \<noteq> []"
    and chunks: "[] \<notin> set chunks" and fd: "0 \<le> fd client"
  shows "client_thread_loop env True cfg client (map RecvData chunks)
     = Inr (client\<lparr>recv_buffer := recv_buffer client @ concat chunks\<rparr>, [])"
  using buf chunks fd
proof (induction chunks arbitrary: client)
  case Nil
  then show ?case by simp
next
  case (Cons c cs)
  define client1 where "client1 = client\<lparr>recv_buffer := recv_buffer client @ c\<rparr>"
  from Cons.prems(1) len have "recv_pos client + length c \<le> RECV_BUFFER_SIZE"
    by (auto simp add: )
  then have received: "take (RECV_BUFFER_SIZE - recv_pos client) c = c"
    by simp
  from Cons.prems(2) have nonempty: "c \<noteq> []"
    by auto
  have "recv_buffer client1 @ (concat cs @ rest) = frame"
    using Cons.prems(1) by (simp add: client1_def)
  moreover have "concat cs @ rest \<noteq> []"
    using rest by simp
  ultimately have waits: "handle_client_data env cfg client1 = Inr (client1, [])"
    by (rule handle_partial_frame [OF layout len])
  have "client_thread_loop env True cfg client1 (map RecvData cs)
      = Inr (client1\<lparr>recv_buffer := recv_buffer client1 @ concat cs\<rparr>, [])"
    using Cons.prems by (intro Cons.IH) (simp_all add: client1_def)
  with waits received nonempty Cons.prems(3) show ?case
    by (simp add: client1_def [symmetric]) (simp add: client1_def)
qed

lemma loop_completes:
  assumes layout: "frame = 0 # pb_encode_varint (length (pb_encode_varint (unat (msg_type :: 16 word)))
                     + length payload)
                   @ pb_encode_varint (unat msg_type) @ payload"
    and len: "length frame \<le> RECV_BUFFER_SIZE"
    and buf: "recv_buffer client @ concat chunks = frame" and some: "chunks \<noteq> []"
    and chunks: "[] \<notin> set chunks" and fd: "0 \<le> fd client"
  shows "\<exists>client' events.
      client_thread_loop env True cfg client (map RecvData chunks) = Inr (client', events)
    \<and> dispatched events = [(msg_type, payload)]
    \<and> recv_buffer client' = [] \<and> fd client' = fd client"
  using buf some chunks fd
proof (induction chunks arbitrary: client)
  case Nil
  then show ?case by simp
next
  case (Cons c cs)
  define client1 where "client1 = client\<lparr>recv_buffer := recv_buffer client @ c\<rparr>"
  from Cons.prems(1) len have "recv_pos client + length c \<le> RECV_BUFFER_SIZE"
    by (auto simp add: )
  then have received: "take (RECV_BUFFER_SIZE - recv_pos client) c = c"
    by simp
  from Cons.prems(3) have nonempty: "c \<noteq> []"
    by auto
  show ?case
  proof (cases "cs = []")
    case True
    with Cons.prems(1) have "recv_buffer client1 = frame"
      by (simp add: client1_def)
    from handle_complete_frame [OF layout len this, of env cfg]
    have handled: "handle_client_data env cfg client1
       = Inr ((fst (dispatch_message env cfg client1 msg_type payload))\<lparr>recv_buffer := []\<rparr>,
              Dispatched msg_type payload # snd (dispatch_message env cfg client1 msg_type payload))" .
    have "fd client1 = fd client"
      by (simp add: client1_def)
    with handled received nonempty Cons.prems(4) True show ?thesis
      by (simp add: client1_def [symmetric])
  next
    case False
    with Cons.prems(3) have "concat cs \<noteq> []"
      by (intro concat_nonempty) simp_all
    moreover have "recv_buffer client1 @ concat cs = frame"
      using Cons.prems(1) by (simp add: client1_def)
    ultimately have waits: "handle_client_data env cfg client1 = Inr (client1, [])"
      by (intro handle_partial_frame [OF layout len])
    have "\<exists>client' events.
        client_thread_loop env True cfg client1 (map RecvData cs) = Inr (client', events)
      \<and> dispatched events = [(msg_type, payload)]
      \<and> recv_buffer client' = [] \<and> fd client' = fd client1"
      using Cons.prems False by (intro Cons.IH) (simp_all add: client1_def)
    with waits received nonempty Cons.prems(4) show ?thesis
      by (auto simp add: client1_def [symmetric]) (simp add: client1_def)
  qed
qed


text \<open>
  C1. Let \<open>frame\<close> be a valid frame: what \<open>esphome_frame_message\<close> builds for a message
  type and a payload within the 4096 bytes of the receive buffer. Let \<open>chunks\<close> be any way
  of cutting the frame into non-empty pieces (a call of \<^verbatim>\<open>recv\<close> that returns data returns at
  least one byte), one byte at a time included, and let them arrive one per call of
  \<^verbatim>\<open>recv\<close> on an open connection of a running server whose buffer is empty. Then the
  receive loop dispatches exactly one message, with the type and the payload of the frame,
  and ends with an empty buffer and the connection open. Before the last piece has arrived,
  that is after any \<open>k\<close> of the pieces with \<open>k\<close> less than their number, nothing has been
  dispatched or sent and no byte has been consumed: the buffer holds all bytes received so
  far and nothing else of the server has changed.
\<close>

theorem frame_reassembly:
  assumes valid: "esphome_frame_message RECV_BUFFER_SIZE msg_type payload = frame" "frame \<noteq> []"
    and split: "concat chunks = frame" "[] \<notin> set chunks"
    and conn: "slot < length (clients server)" "running server"
      "0 \<le> fd (clients server ! slot)" "recv_buffer (clients server ! slot) = []"
  shows "(\<exists>server' events.
            client_thread_func env server slot (map RecvData chunks) = Inr (server', events)
          \<and> dispatched events = [(msg_type, payload)]
          \<and> recv_buffer (clients server' ! slot) = []
          \<and> fd (clients server' ! slot) = fd (clients server ! slot))
       \<and> (\<forall>k<length chunks.
            client_thread_func env server slot (map RecvData (take k chunks))
              = Inr (server\<lparr>clients := (clients server)
                        [slot := (clients server ! slot)\<lparr>recv_buffer := concat (take k chunks)\<rparr>]\<rparr>,
                     []))"
proof (intro conjI allI impI)
  define client where "client = clients server ! slot"
  note layout = frame_layout(1) [OF valid] and len = frame_layout(2) [OF valid]
  from split(1) valid(2) have some: "chunks \<noteq> []"
    by auto
  have "recv_buffer client @ concat chunks = frame"
    by (simp add: client_def conn(4) split(1))
  from loop_completes [OF layout len this some split(2), of env "config server"] conn(3)
  obtain client' events where
    loop: "client_thread_loop env True (config server) client (map RecvData chunks)
            = Inr (client', events)"
    and result: "dispatched events = [(msg_type, payload)]" "recv_buffer client' = []"
      "fd client' = fd client"
    by (auto simp add: client_def)
  from loop conn(2) have "client_thread_func env server slot (map RecvData chunks)
      = Inr (server\<lparr>clients := (clients server)[slot := client']\<rparr>, events)"
    by (simp add: client_thread_func_def client_def)
  with result conn(1) show "\<exists>server' events.
            client_thread_func env server slot (map RecvData chunks) = Inr (server', events)
          \<and> dispatched events = [(msg_type, payload)]
          \<and> recv_buffer (clients server' ! slot) = []
          \<and> fd (clients server' ! slot) = fd (clients server ! slot)"
    by (simp add: client_def)
next
  fix k
  assume k: "k < length chunks"
  define client where "client = clients server ! slot"
  note layout = frame_layout(1) [OF valid] and len = frame_layout(2) [OF valid]
  have "concat (take k chunks) @ concat (drop k chunks) = concat chunks"
    by (simp flip: concat_append)
  then have buf: "recv_buffer client @ concat (take k chunks) @ concat (drop k chunks) = frame"
    by (simp add: client_def conn(4) split(1))
  from k have "drop k chunks \<noteq> []"
    by simp
  moreover from split(2) have "[] \<notin> set (drop k chunks)"
    using set_drop_subset [of k chunks] by blast
  ultimately have rest: "concat (drop k chunks) \<noteq> []"
    by (rule concat_nonempty)
  from split(2) have taken: "[] \<notin> set (take k chunks)"
    using set_take_subset [of k chunks] by blast
  from conn(3) have fd: "0 \<le> fd client"
    by (simp add: client_def)
  from loop_accumulates [OF layout len buf rest taken fd, of env "config server"] conn(2,4)
  show "client_thread_func env server slot (map RecvData (take k chunks))
              = Inr (server\<lparr>clients := (clients server)
                        [slot := (clients server ! slot)\<lparr>recv_buffer := concat (take k chunks)\<rparr>]\<rparr>,
                     [])"
    by (simp add: client_thread_func_def client_def)
qed

lemma sample_subscribe_frame:
  "esphome_frame_message RECV_BUFFER_SIZE ESPHOME_MSG_SUBSCRIBE_BLUETOOTH_LE_ADVERTISEMENTS_REQUEST [8, 0]
     = [0, 3, 66, 8, 0]"
  by (simp add: esphome_frame_message_def pb_encode_varint.simps Let_def)

theorem frame_reassembly_witness:
  "esphome_frame_message RECV_BUFFER_SIZE ESPHOME_MSG_SUBSCRIBE_BLUETOOTH_LE_ADVERTISEMENTS_REQUEST [8, 0]
     = [0, 3, 66, 8, 0]
   \<and> concat [[0, 3], [66], [8, 0 :: byte]] = [0, 3, 66, 8, 0]
   \<and> (\<exists>server' events.
        client_thread_func (sample_externals []) sample_server 0
          (map RecvData [[0, 3], [66], [8, 0]]) = Inr (server', events)
      \<and> dispatched events = [(ESPHOME_MSG_SUBSCRIBE_BLUETOOTH_LE_ADVERTISEMENTS_REQUEST, [8, 0])]
      \<and> recv_buffer (clients server' ! 0) = [])
   \<and> client_thread_func (sample_externals []) sample_server 0 (map RecvData [[0, 3], [66]])
       = Inr (sample_server\<lparr>clients :=
                [client_init\<lparr>fd := 5, recv_buffer := [0, 3, 66], thread_running := True\<rparr>,
                 client_init\<lparr>fd := 6, thread_running := True\<rparr>]\<rparr>, [])"
proof -
  have nonempty: "[0, 3, 66, 8, 0 :: byte] \<noteq> []"
    by simp
  have parts: "concat [[0, 3], [66], [8, 0 :: byte]] = [0, 3, 66, 8, 0]"
    by simp
  have chunks: "[] \<notin> set [[0, 3], [66], [8, 0 :: byte]]"
    by simp
  have slot: "0 < length (clients sample_server)"
    by (simp add: sample_server_def)
  have run: "running sample_server"
    by (simp add: sample_server_def)
  have fd: "0 \<le> fd (clients sample_server ! 0)"
    by (simp add: sample_server_def client_init_def)
  have empty: "recv_buffer (clients sample_server ! 0) = []"
    by (simp add: sample_server_def client_init_def)
  note reassembled = frame_reassembly [OF sample_subscribe_frame nonempty parts chunks slot run fd empty,
      where env = "sample_externals []"]
  from reassembled have whole: "\<exists>server' events.
        client_thread_func (sample_externals []) sample_server 0
          (map RecvData [[0, 3], [66], [8, 0]]) = Inr (server', events)
      \<and> dispatched events = [(ESPHOME_MSG_SUBSCRIBE_BLUETOOTH_LE_ADVERTISEMENTS_REQUEST, [8, 0])]
      \<and> recv_buffer (clients server' ! 0) = []"
    by blast
  from reassembled have "\<forall>k<length [[0, 3], [66], [8, 0 :: byte]].
            client_thread_func (sample_externals []) sample_server 0
              (map RecvData (take k [[0, 3], [66], [8, 0]]))
              = Inr (sample_server\<lparr>clients := (clients sample_server)
                        [0 := (clients sample_server ! 0)
                           \<lparr>recv_buffer := concat (take k [[0, 3], [66], [8, 0]])\<rparr>]\<rparr>,
                     [])"
    by blast
  then have "client_thread_func (sample_externals []) sample_server 0
              (map RecvData (take 2 [[0, 3], [66], [8, 0]]))
              = Inr (sample_server\<lparr>clients := (clients sample_server)
                        [0 := (clients sample_server ! 0)
                           \<lparr>recv_buffer := concat (take 2 [[0, 3], [66], [8, 0]])\<rparr>]\<rparr>,
                     [])"
    by (rule allE [where x = 2]) simp
  then have partial: "client_thread_func (sample_externals []) sample_server 0 (map RecvData [[0, 3], [66]])
       = Inr (sample_server\<lparr>clients :=
                [client_init\<lparr>fd := 5, recv_buffer := [0, 3, 66], thread_running := True\<rparr>,
                 client_init\<lparr>fd := 6, thread_running := True\<rparr>]\<rparr>, [])"
    by (simp add: sample_server_def client_init_def)
  from sample_subscribe_frame parts whole partial show ?thesis
    by blast
qed

end
